theory Spec2Isabelle
  imports Main "HOL-Library.Multiset" "HOL-Library.Sublist"
begin

section \<open>Data model\<close>

text \<open>
  A JavaScript string is modelled as a \<open>string\<close>: the list of the bytes of its UTF-8
  form. The operations the program applies to strings read ASCII characters only and agree
  on both encodings: equality, splitting and joining at \<open>/\<close>, the runs of the ASCII
  digits, and the test whether the first code unit is one of \<open>A\<close>..\<open>Z\<close>; so does
  the search for a substring, on well-formed strings. The two operations that depend on
  Unicode tables of the host, \<open>toLowerCase\<close> and \<open>localeCompare\<close>, are parameters of
  the functions that call them.

  In the data model of the specification the fields \<open>id\<close> (here \<open>card_id\<close>), \<open>name\<close>
  and \<open>kind\<close> of a card are strings. The code tests two fields dynamically and the model
  keeps the cases it tells apart: \<open>type\<close> is falsy (missing), one value, or an array of
  values; \<open>tags\<close> is an array or something \<open>Array.isArray\<close> rejects. A second embedding
  of \<open>filterCards\<close>, further down, takes cards as the unvalidated JSON may hold them.
\<close>

datatype type_field = NoType | OneType string | TypeArray "string list"

datatype tags_field = NotArray | TagArray "string list"

record card =
  card_id :: string
  name :: string
  kind :: string
  type :: type_field
  tags :: tags_field

text \<open>An element of \<open>deckCards\<close>: \<open>{ card: {}, count: N }\<close>; the fields are
  \<open>item_card\<close> and \<open>item_count\<close> here.\<close>

record entry =
  item_card :: card
  item_count :: int

datatype error = TypeError | RangeError

text \<open>The two messages the store shows with \<open>alert\<close>: the deck holds 60 cards already;
  an imported code held no valid card.\<close>

datatype alert = DeckFull | NoValidCards

text \<open>The reactive variables the deck operations read and write.\<close>

record state =
  deckCards :: "entry list"
  deckName :: string
  importDeckCode :: string
  showDeckCodeModal :: bool

text \<open>The default deck name, six Japanese characters, as UTF-8.\<close>

definition defaultDeckName :: string where
  "defaultDeckName =
     [CHR 0xE6, CHR 0x96, CHR 0xB0, CHR 0xE3, CHR 0x81, CHR 0x97, CHR 0xE3, CHR 0x81, CHR 0x84,
      CHR 0xE3, CHR 0x83, CHR 0x87, CHR 0xE3, CHR 0x83, CHR 0x83, CHR 0xE3, CHR 0x82, CHR 0xAD]"

section \<open>Deck store\<close>

text \<open>\<open>Array.prototype.findIndex\<close>: the first index whose element satisfies the
  predicate, \<open>-1\<close> when there is none.\<close>

fun findIndex :: "('a \<Rightarrow> bool) \<Rightarrow> 'a list \<Rightarrow> int" where
  "findIndex P [] = -1"
| "findIndex P (x # xs) =
     (if P x then 0 else (let i = findIndex P xs in if i = -1 then -1 else i + 1))"

text \<open>\<open>deckCards.value.reduce((sum, item) => sum + item.count, 0)\<close>\<close>

definition totalDeckCards :: "entry list \<Rightarrow> int" where
  "totalDeckCards deck = foldl (\<lambda>sum item. sum + item_count item) 0 deck"

definition addCardToDeck :: "card \<Rightarrow> state \<Rightarrow> alert option \<times> state" where
  "addCardToDeck c s =
     (if totalDeckCards (deckCards s) \<ge> 60 then (Some DeckFull, s)
      else
        let existingCardIndex =
              findIndex (\<lambda>item. card_id (item_card item) = card_id c) (deckCards s) in
        if existingCardIndex > -1 then
          (let i = nat existingCardIndex; item = deckCards s ! i in
           if item_count item < 4
           then (None, s\<lparr>deckCards :=
                           (deckCards s)[i := item\<lparr>item_count := item_count item + 1\<rparr>]\<rparr>)
           else (None, s))
        else (None, s\<lparr>deckCards := deckCards s @ [\<lparr>item_card = c, item_count = 1\<rparr>]\<rparr>))"

text \<open>\<open>find\<close> returns the first entry with the id, by reference; \<open>item.count++\<close> then
  changes that element of the array. The model reaches it through its index.\<close>

definition incrementCardCount :: "string \<Rightarrow> state \<Rightarrow> alert option \<times> state" where
  "incrementCardCount cardId s =
     (if totalDeckCards (deckCards s) \<ge> 60 then (Some DeckFull, s)
      else
        let k = findIndex (\<lambda>item. card_id (item_card item) = cardId) (deckCards s) in
        if k \<noteq> -1 \<and> item_count (deckCards s ! nat k) < 4
        then (let item = deckCards s ! nat k in
              (None, s\<lparr>deckCards :=
                         (deckCards s)[nat k := item\<lparr>item_count := item_count item + 1\<rparr>]\<rparr>))
        else (None, s))"

definition removeCardFromDeck :: "string \<Rightarrow> state \<Rightarrow> state" where
  "removeCardFromDeck cardId s =
     s\<lparr>deckCards := filter (\<lambda>item. card_id (item_card item) \<noteq> cardId) (deckCards s)\<rparr>"

definition decrementCardCount :: "string \<Rightarrow> state \<Rightarrow> state" where
  "decrementCardCount cardId s =
     (let k = findIndex (\<lambda>item. card_id (item_card item) = cardId) (deckCards s) in
      if k \<noteq> -1 \<and> item_count (deckCards s ! nat k) > 1
      then (let item = deckCards s ! nat k in
            s\<lparr>deckCards :=
                (deckCards s)[nat k := item\<lparr>item_count := item_count item - 1\<rparr>]\<rparr>)
      else if k \<noteq> -1 \<and> item_count (deckCards s ! nat k) = 1
      then removeCardFromDeck cardId s
      else s)"

text \<open>\<open>resetDeck\<close> asks the user with \<open>confirm\<close>; the answer is the first argument.
  The two calls of \<open>localStorage.removeItem\<close> change no variable of the state.\<close>

definition resetDeck :: "bool \<Rightarrow> state \<Rightarrow> state" where
  "resetDeck confirmed s =
     (if confirmed then s\<lparr>deckCards := [], deckName := defaultDeckName\<rparr> else s)"

text \<open>One user gesture on the store, and a sequence of them.\<close>

datatype store_op =
  AddCard card
| Increment string
| Decrement string
| Remove string
| Reset bool

fun apply_op :: "store_op \<Rightarrow> state \<Rightarrow> state" where
  "apply_op (AddCard c) s = snd (addCardToDeck c s)"
| "apply_op (Increment i) s = snd (incrementCardCount i s)"
| "apply_op (Decrement i) s = decrementCardCount i s"
| "apply_op (Remove i) s = removeCardFromDeck i s"
| "apply_op (Reset b) s = resetDeck b s"

definition run_ops :: "store_op list \<Rightarrow> state \<Rightarrow> state" where
  "run_ops ops s = fold apply_op ops s"

text \<open>The invariants of a deck: every count is between 1 and 4 (so no entry has count
  zero), the counts sum to at most 60, and no two entries have the same card id.\<close>

definition deck_inv :: "entry list \<Rightarrow> bool" where
  "deck_inv deck \<longleftrightarrow>
     (\<forall>e \<in> set deck. 1 \<le> item_count e \<and> item_count e \<le> 4) \<and>
     totalDeckCards deck \<le> 60 \<and>
     distinct (map (\<lambda>e. card_id (item_card e)) deck)"

section \<open>Ordering engine\<close>

definition allKinds :: "string list" where
  "allKinds = [''Artist'', ''Song'', ''Magic'', ''Direction'']"

text \<open>The nine types are Japanese words (seven colours and scopes of one character, three
  of two), written here as their UTF-8 bytes, in the order of the source.\<close>

definition allTypes :: "string list" where
  "allTypes =
     [[CHR 0xE8, CHR 0xB5, CHR 0xA4],
      [CHR 0xE9, CHR 0x9D, CHR 0x92],
      [CHR 0xE9, CHR 0xBB, CHR 0x84],
      [CHR 0xE7, CHR 0x99, CHR 0xBD],
      [CHR 0xE9, CHR 0xBB, CHR 0x92],
      [CHR 0xE5, CHR 0x85, CHR 0xA8],
      [CHR 0xE5, CHR 0x8D, CHR 0xB3, CHR 0xE6, CHR 0x99, CHR 0x82],
      [CHR 0xE8, CHR 0xA3, CHR 0x85, CHR 0xE5, CHR 0x82, CHR 0x99],
      [CHR 0xE8, CHR 0xA8, CHR 0xAD, CHR 0xE7, CHR 0xBD, CHR 0xAE]]"

text \<open>\<open>Array.prototype.indexOf\<close>: the first index of the value, \<open>-1\<close> when absent.\<close>

definition indexOf :: "'a list \<Rightarrow> 'a \<Rightarrow> int" where
  "indexOf xs v = findIndex (\<lambda>x. x = v) xs"

definition kindSort :: "card \<Rightarrow> card \<Rightarrow> int" where
  "kindSort a b =
     (let order = allKinds;
          indexA = indexOf order (kind a);
          indexB = indexOf order (kind b)
      in indexA - indexB)"

text \<open>\<open>!cardTypes\<close>: the field is missing, or it is the empty string. An array is truthy,
  also the empty one.\<close>

fun falsy :: "type_field \<Rightarrow> bool" where
  "falsy NoType = True"
| "falsy (OneType t) = (t = [])"
| "falsy (TypeArray ts) = False"

definition getEarliestTypeIndex :: "type_field \<Rightarrow> int" where
  "getEarliestTypeIndex cardTypes =
     (let order = allTypes in
      if falsy cardTypes then int (length order)
      else
        let types = (case cardTypes of TypeArray ts \<Rightarrow> ts | OneType t \<Rightarrow> [t] | NoType \<Rightarrow> [])
        in fold (\<lambda>type minIndex.
                   let index = indexOf order type
                   in if index \<noteq> -1 \<and> index < minIndex then index else minIndex)
                types (int (length order)))"

definition typeSort :: "card \<Rightarrow> card \<Rightarrow> int" where
  "typeSort a b =
     (let indexA = getEarliestTypeIndex (type a);
          indexB = getEarliestTypeIndex (type b)
      in indexA - indexB)"

text \<open>The regular expression \<open>/(\d+)|(\D+)/g\<close>: \<open>\d\<close> is one of the ten ASCII digits,
  \<open>\D\<close> any other code unit; both runs are greedy. \<open>match\<close> with the \<open>g\<close> flag returns
  the matches from left to right, and \<open>null\<close> when there is none.\<close>

definition is_digit :: "char \<Rightarrow> bool" where
  "is_digit c \<longleftrightarrow> c \<in> set ''0123456789''"

function tokens :: "string \<Rightarrow> string list" where
  "tokens [] = []"
| "tokens (c # cs) =
     (if is_digit c
      then takeWhile is_digit (c # cs) # tokens (dropWhile is_digit (c # cs))
      else takeWhile (\<lambda>x. \<not> is_digit x) (c # cs) # tokens (dropWhile (\<lambda>x. \<not> is_digit x) (c # cs)))"
  by pat_completeness auto
termination
  by (relation "measure length") (auto simp: less_Suc_eq_le length_dropWhile_le)

definition match_regex :: "string \<Rightarrow> string list option" where
  "match_regex s = (case tokens s of [] \<Rightarrow> None | t # ts \<Rightarrow> Some (t # ts))"

text \<open>A JavaScript number, as far as the comparators meet it: a double whose value is an
  integer, an infinity, or \<open>NaN\<close>.\<close>

datatype number = Finite int | PosInfinity | NegInfinity | NaN

text \<open>The double nearest to a natural number, ties going to the even significand of 53
  bits; a natural number that rounds to \<open>2^1024\<close> or more becomes \<open>Infinity\<close>.\<close>

fun bit_length :: "nat \<Rightarrow> nat" where
  "bit_length n = (if n = 0 then 0 else Suc (bit_length (n div 2)))"

declare bit_length.simps [simp del]

definition round_to_double :: "nat \<Rightarrow> nat" where
  "round_to_double n =
     (if n < 2 ^ 53 then n
      else
        let e = bit_length n - 53;
            q = n div 2 ^ e;
            r = n mod 2 ^ e;
            half = 2 ^ (e - 1)
        in (if r > half \<or> (r = half \<and> odd q) then q + 1 else q) * 2 ^ e)"

definition to_number :: "nat \<Rightarrow> number" where
  "to_number n =
     (let d = round_to_double n in if d \<ge> 2 ^ 1024 then PosInfinity else Finite (int d))"

text \<open>\<open>x - y\<close> on numbers: the exact difference, rounded; the cases with an infinity or
  \<open>NaN\<close> as IEEE 754 has them.\<close>

fun number_minus :: "number \<Rightarrow> number \<Rightarrow> number" where
  "number_minus (Finite x) (Finite y) =
     (if x \<ge> y then to_number (nat (x - y))
      else (case to_number (nat (y - x)) of
              Finite d \<Rightarrow> Finite (- d)
            | PosInfinity \<Rightarrow> NegInfinity
            | NegInfinity \<Rightarrow> PosInfinity
            | NaN \<Rightarrow> NaN))"
| "number_minus NaN y = NaN"
| "number_minus x NaN = NaN"
| "number_minus PosInfinity PosInfinity = NaN"
| "number_minus NegInfinity NegInfinity = NaN"
| "number_minus PosInfinity y = PosInfinity"
| "number_minus NegInfinity y = NegInfinity"
| "number_minus (Finite x) PosInfinity = NegInfinity"
| "number_minus (Finite x) NegInfinity = PosInfinity"

text \<open>\<open>x !== y\<close> on numbers: \<open>NaN\<close> differs from every number, also from itself.\<close>

definition number_differs :: "number \<Rightarrow> number \<Rightarrow> bool" where
  "number_differs x y \<longleftrightarrow> x = NaN \<or> y = NaN \<or> x \<noteq> y"

definition isNaN :: "number \<Rightarrow> bool" where
  "isNaN x \<longleftrightarrow> x = NaN"

text \<open>\<open>parseInt(token, 10)\<close>: the double nearest to the number written by the leading
  digits, \<open>NaN\<close> when there is no leading digit. The definition is \<open>parseInt\<close> on the
  strings that start with a digit or hold no digit at all, which is what every token is; it
  leaves out the white space and the sign that \<open>parseInt\<close> skips in front of the digits of
  other strings. The whole run is rounded, as the engines do (the standard lets an
  implementation read the digits after the twentieth as zeros).\<close>

definition digit_value :: "char \<Rightarrow> nat" where
  "digit_value c = of_char c - 48"

definition digits_value :: "string \<Rightarrow> nat" where
  "digits_value ds = foldl (\<lambda>n c. 10 * n + digit_value c) 0 ds"

definition parseInt10 :: "string \<Rightarrow> number" where
  "parseInt10 token =
     (case takeWhile is_digit token of
        [] \<Rightarrow> NaN
      | d # ds \<Rightarrow> to_number (digits_value (d # ds)))"

text \<open>\<open>charCodeAt(0)\<close> between 65 and 90; of the empty string it is \<open>NaN\<close> and both
  comparisons are false.\<close>

definition isUpper :: "string \<Rightarrow> bool" where
  "isUpper token =
     (case token of [] \<Rightarrow> False
      | c # _ \<Rightarrow> (65::nat) \<le> of_char c \<and> (of_char c :: nat) \<le> 90)"

text \<open>The \<open>for\<close> loop of \<open>naturalSort\<close> over the common indices of the two token arrays:
  \<open>Some r\<close> when an iteration returns \<open>r\<close>, \<open>None\<close> when the loop runs to its end. The
  first argument is the host's \<open>localeCompare\<close>, which returns an integer.\<close>

fun naturalSort_loop ::
  "(string \<Rightarrow> string \<Rightarrow> int) \<Rightarrow> string list \<Rightarrow> string list \<Rightarrow> number option" where
  "naturalSort_loop localeCompare (tokenA # tokensA) (tokenB # tokensB) =
     (let numA = parseInt10 tokenA; numB = parseInt10 tokenB in
      if \<not> isNaN numA \<and> \<not> isNaN numB then
        if number_differs numA numB then Some (number_minus numA numB)
        else naturalSort_loop localeCompare tokensA tokensB
      else
        let isUpperA = isUpper tokenA; isUpperB = isUpper tokenB in
        if isUpperA \<noteq> isUpperB then Some (Finite (if isUpperA then -1 else 1))
        else if tokenA \<noteq> tokenB then Some (Finite (localeCompare tokenA tokenB))
        else naturalSort_loop localeCompare tokensA tokensB)"
| "naturalSort_loop localeCompare _ _ = None"

definition naturalSort :: "(string \<Rightarrow> string \<Rightarrow> int) \<Rightarrow> string \<Rightarrow> string \<Rightarrow> number" where
  "naturalSort localeCompare a b =
     (case (match_regex a, match_regex b) of
        (Some tokensA, Some tokensB) \<Rightarrow>
          (case naturalSort_loop localeCompare tokensA tokensB of
             Some r \<Rightarrow> r
           | None \<Rightarrow> Finite (int (length tokensA) - int (length tokensB)))
      | _ \<Rightarrow> Finite (localeCompare a b))"

text \<open>The comparator given to \<open>sort\<close> in \<open>sortedAndFilteredAvailableCards\<close>.\<close>

definition sortedAndFilteredAvailableCards_compare ::
  "(string \<Rightarrow> string \<Rightarrow> int) \<Rightarrow> card \<Rightarrow> card \<Rightarrow> number" where
  "sortedAndFilteredAvailableCards_compare localeCompare a b =
     (let kindComparison = kindSort a b in
      if kindComparison \<noteq> 0 then Finite kindComparison
      else
        let typeComparison = typeSort a b in
        if typeComparison \<noteq> 0 then Finite typeComparison
        else naturalSort localeCompare (card_id a) (card_id b))"

text \<open>The objects \<open>{ kind: cardA.kind }\<close> and \<open>{ type: cardA.type }\<close> that
  \<open>sortedDeckCards\<close> builds for \<open>kindSort\<close> and \<open>typeSort\<close>: every other property is
  absent, which the record writes as the empty string, \<open>NoType\<close> and \<open>NotArray\<close>.\<close>

definition kind_object :: "string \<Rightarrow> card" where
  "kind_object k = \<lparr>card_id = [], name = [], kind = k, type = NoType, tags = NotArray\<rparr>"

definition type_object :: "type_field \<Rightarrow> card" where
  "type_object t = \<lparr>card_id = [], name = [], kind = [], type = t, tags = NotArray\<rparr>"

text \<open>The comparator given to \<open>sort\<close> in \<open>sortedDeckCards\<close>, on deck entries.\<close>

definition sortedDeckCards_compare ::
  "(string \<Rightarrow> string \<Rightarrow> int) \<Rightarrow> entry \<Rightarrow> entry \<Rightarrow> number" where
  "sortedDeckCards_compare localeCompare a b =
     (let cardA = item_card a; cardB = item_card b;
          kindComparison = kindSort (kind_object (kind cardA)) (kind_object (kind cardB)) in
      if kindComparison \<noteq> 0 then Finite kindComparison
      else
        let typeComparison = typeSort (type_object (type cardA)) (type_object (type cardB)) in
        if typeComparison \<noteq> 0 then Finite typeComparison
        else naturalSort localeCompare (card_id cardA) (card_id cardB))"

section \<open>Filter engine\<close>

text \<open>\<open>filterCriteria\<close>; its fields \<open>text\<close>, \<open>kind\<close>, \<open>type\<close> and \<open>tags\<close> carry the prefix
  \<open>crit_\<close> here, since \<open>kind\<close>, \<open>type\<close> and \<open>tags\<close> are fields of a card already.\<close>

record criteria =
  crit_text :: string
  crit_kind :: "string list"
  crit_type :: "string list"
  crit_tags :: "string list"

text \<open>\<open>s.includes(t)\<close>: \<open>t\<close> occurs in \<open>s\<close> as a run of consecutive code units.\<close>

fun includes_str :: "string \<Rightarrow> string \<Rightarrow> bool" where
  "includes_str [] t = (t = [])"
| "includes_str (c # cs) t = (prefix t (c # cs) \<or> includes_str cs t)"

fun Array_isArray :: "tags_field \<Rightarrow> bool" where
  "Array_isArray NotArray = False"
| "Array_isArray (TagArray ts) = True"

text \<open>\<open>card.tags.some(p)\<close>: a value that is not an array has no method \<open>some\<close>, and the
  call throws a \<open>TypeError\<close>.\<close>

fun tags_some :: "tags_field \<Rightarrow> (string \<Rightarrow> bool) \<Rightarrow> error + bool" where
  "tags_some NotArray p = Inl TypeError"
| "tags_some (TagArray ts) p = Inr (list_ex p ts)"

text \<open>\<open>Array.isArray(card.type) ? card.type : [card.type]\<close>: a missing type gives the
  array \<open>[undefined]\<close>, written \<open>[None]\<close>.\<close>

fun cardTypes_of :: "type_field \<Rightarrow> string option list" where
  "cardTypes_of (TypeArray ts) = map Some ts"
| "cardTypes_of (OneType t) = [Some t]"
| "cardTypes_of NoType = [None]"

text \<open>\<open>has\<close> of a \<open>Set\<close> of strings: \<open>undefined\<close> is no member.\<close>

fun set_has :: "string set \<Rightarrow> string option \<Rightarrow> bool" where
  "set_has S None = False"
| "set_has S (Some v) = (v \<in> S)"

text \<open>On a card of the data model \<open>card.name.toLowerCase()\<close> and
  \<open>card.id.toLowerCase()\<close> are calls on strings, and so are the calls on the tags of an
  array; the exceptions they throw on other values are kept by the embedding on JSON values
  below. The value of the first condition of the callback,
  \<open>textLower && !(name-match || id-match || (isArray(tags) && tags.some(...)))\<close>,
  as a truth value; \<open>||\<close> and \<open>&&\<close> evaluate their right operand only when needed.\<close>

definition text_mismatch :: "(string \<Rightarrow> string) \<Rightarrow> string \<Rightarrow> card \<Rightarrow> error + bool" where
  "text_mismatch toLowerCase textLower c =
     (if textLower = [] then Inr False
      else if includes_str (toLowerCase (name c)) textLower then Inr False
      else if includes_str (toLowerCase (card_id c)) textLower then Inr False
      else if Array_isArray (tags c)
      then (case tags_some (tags c) (\<lambda>tag. includes_str (toLowerCase tag) textLower) of
              Inl e \<Rightarrow> Inl e
            | Inr found \<Rightarrow> Inr (\<not> found))
      else Inr True)"

text \<open>The condition of the tag filter,
  \<open>tagSet.size > 0 && !(Array.isArray(card.tags) && card.tags.some(tag => tagSet.has(tag)))\<close>.\<close>

definition tags_mismatch :: "string set \<Rightarrow> card \<Rightarrow> error + bool" where
  "tags_mismatch tagSet c =
     (if tagSet = {} then Inr False
      else if Array_isArray (tags c)
      then (case tags_some (tags c) (\<lambda>tag. tag \<in> tagSet) of
              Inl e \<Rightarrow> Inl e
            | Inr found \<Rightarrow> Inr (\<not> found))
      else Inr True)"

text \<open>The callback of \<open>cards.filter\<close>: \<open>Inr True\<close> keeps the card, \<open>Inr False\<close> drops it,
  \<open>Inl e\<close> is an exception.\<close>

definition filterCards_callback ::
  "(string \<Rightarrow> string) \<Rightarrow> string \<Rightarrow> string set \<Rightarrow> string set \<Rightarrow> string set \<Rightarrow> card \<Rightarrow> error + bool"
  where
  "filterCards_callback toLowerCase textLower kindSet typeSet tagSet c =
     (case text_mismatch toLowerCase textLower c of
        Inl e \<Rightarrow> Inl e
      | Inr True \<Rightarrow> Inr False
      | Inr False \<Rightarrow>
          if kindSet \<noteq> {} \<and> kind c \<notin> kindSet then Inr False
          else if typeSet \<noteq> {} \<and> \<not> list_ex (\<lambda>type. set_has typeSet type) (cardTypes_of (type c))
          then Inr False
          else (case tags_mismatch tagSet c of
                  Inl e \<Rightarrow> Inl e
                | Inr True \<Rightarrow> Inr False
                | Inr False \<Rightarrow> Inr True))"

text \<open>\<open>Array.prototype.filter\<close> with a callback that may throw: the first exception
  ends the call.\<close>

fun filter_array :: "('a \<Rightarrow> error + bool) \<Rightarrow> 'a list \<Rightarrow> error + 'a list" where
  "filter_array p [] = Inr []"
| "filter_array p (x # xs) =
     (case p x of
        Inl e \<Rightarrow> Inl e
      | Inr keep \<Rightarrow>
          (case filter_array p xs of
             Inl e \<Rightarrow> Inl e
           | Inr ys \<Rightarrow> Inr (if keep then x # ys else ys)))"

text \<open>The first argument is the host's \<open>String.prototype.toLowerCase\<close>.\<close>

definition filterCards :: "(string \<Rightarrow> string) \<Rightarrow> card list \<Rightarrow> criteria \<Rightarrow> error + card list" where
  "filterCards toLowerCase cards crit =
     (let textLower = toLowerCase (crit_text crit);
          kindSet = set (crit_kind crit);
          typeSet = set (crit_type crit);
          tagSet = set (crit_tags crit)
      in filter_array (filterCards_callback toLowerCase textLower kindSet typeSet tagSet) cards)"

text \<open>The catalog comes from \<open>response.json()\<close> and is not validated, so a property of a
  card may be absent or hold a value of another type. For the behaviour of \<open>filterCards\<close>
  on such cards the same function is embedded a second time, on cards whose properties are
  JSON values: absent, a string, an array, or any other value (a number, a boolean, \<open>null\<close>,
  an object).\<close>

datatype jsval = Undefined | Str string | Arr "jsval list" | Other

record raw_card =
  raw_id :: jsval
  raw_name :: jsval
  raw_kind :: jsval
  raw_type :: jsval
  raw_tags :: jsval

text \<open>\<open>v.toLowerCase()\<close>: only a string has the method; on every other value the call
  throws a \<open>TypeError\<close>.\<close>

fun js_toLowerCase :: "(string \<Rightarrow> string) \<Rightarrow> jsval \<Rightarrow> error + string" where
  "js_toLowerCase toLowerCase (Str s) = Inr (toLowerCase s)"
| "js_toLowerCase toLowerCase v = Inl TypeError"

text \<open>\<open>v.toLowerCase().includes(textLower)\<close>\<close>

definition lower_includes :: "(string \<Rightarrow> string) \<Rightarrow> jsval \<Rightarrow> string \<Rightarrow> error + bool" where
  "lower_includes toLowerCase v textLower =
     (case js_toLowerCase toLowerCase v of
        Inl e \<Rightarrow> Inl e
      | Inr s \<Rightarrow> Inr (includes_str s textLower))"

fun isArray :: "jsval \<Rightarrow> bool" where
  "isArray (Arr vs) = True"
| "isArray v = False"

text \<open>\<open>Array.prototype.some\<close> with a callback that may throw: it stops at the first
  element for which the callback returns true or throws.\<close>

fun array_some :: "('a \<Rightarrow> error + bool) \<Rightarrow> 'a list \<Rightarrow> error + bool" where
  "array_some p [] = Inr False"
| "array_some p (x # xs) =
     (case p x of
        Inl e \<Rightarrow> Inl e
      | Inr found \<Rightarrow> if found then Inr True else array_some p xs)"

text \<open>\<open>v.some(p)\<close>: a \<open>TypeError\<close> on a value that is no array.\<close>

fun js_some :: "jsval \<Rightarrow> (jsval \<Rightarrow> error + bool) \<Rightarrow> error + bool" where
  "js_some (Arr vs) p = array_some p vs"
| "js_some v p = Inl TypeError"

text \<open>\<open>has\<close> of a \<open>Set\<close> of strings, on any value: only a string can be a member.\<close>

fun Set_has :: "string set \<Rightarrow> jsval \<Rightarrow> bool" where
  "Set_has S (Str s) = (s \<in> S)"
| "Set_has S v = False"

text \<open>\<open>Array.isArray(card.type) ? card.type : [card.type]\<close>\<close>

fun raw_cardTypes :: "jsval \<Rightarrow> jsval list" where
  "raw_cardTypes (Arr vs) = vs"
| "raw_cardTypes v = [v]"

definition raw_text_mismatch :: "(string \<Rightarrow> string) \<Rightarrow> string \<Rightarrow> raw_card \<Rightarrow> error + bool" where
  "raw_text_mismatch toLowerCase textLower c =
     (if textLower = [] then Inr False
      else
        case lower_includes toLowerCase (raw_name c) textLower of
          Inl e \<Rightarrow> Inl e
        | Inr True \<Rightarrow> Inr False
        | Inr False \<Rightarrow>
            (case lower_includes toLowerCase (raw_id c) textLower of
               Inl e \<Rightarrow> Inl e
             | Inr True \<Rightarrow> Inr False
             | Inr False \<Rightarrow>
                 if isArray (raw_tags c)
                 then (case js_some (raw_tags c)
                              (\<lambda>tag. lower_includes toLowerCase tag textLower) of
                         Inl e \<Rightarrow> Inl e
                       | Inr found \<Rightarrow> Inr (\<not> found))
                 else Inr True))"

definition raw_tags_mismatch :: "string set \<Rightarrow> raw_card \<Rightarrow> error + bool" where
  "raw_tags_mismatch tagSet c =
     (if tagSet = {} then Inr False
      else if isArray (raw_tags c)
      then (case js_some (raw_tags c) (\<lambda>tag. Inr (Set_has tagSet tag)) of
              Inl e \<Rightarrow> Inl e
            | Inr found \<Rightarrow> Inr (\<not> found))
      else Inr True)"

definition filterCards_raw_callback ::
  "(string \<Rightarrow> string) \<Rightarrow> string \<Rightarrow> string set \<Rightarrow> string set \<Rightarrow> string set \<Rightarrow> raw_card
     \<Rightarrow> error + bool"
  where
  "filterCards_raw_callback toLowerCase textLower kindSet typeSet tagSet c =
     (case raw_text_mismatch toLowerCase textLower c of
        Inl e \<Rightarrow> Inl e
      | Inr True \<Rightarrow> Inr False
      | Inr False \<Rightarrow>
          if kindSet \<noteq> {} \<and> \<not> Set_has kindSet (raw_kind c) then Inr False
          else if typeSet \<noteq> {} \<and>
                  \<not> list_ex (\<lambda>type. Set_has typeSet type) (raw_cardTypes (raw_type c))
          then Inr False
          else (case raw_tags_mismatch tagSet c of
                  Inl e \<Rightarrow> Inl e
                | Inr True \<Rightarrow> Inr False
                | Inr False \<Rightarrow> Inr True))"

definition filterCards_raw ::
  "(string \<Rightarrow> string) \<Rightarrow> raw_card list \<Rightarrow> criteria \<Rightarrow> error + raw_card list" where
  "filterCards_raw toLowerCase cards crit =
     (let textLower = toLowerCase (crit_text crit);
          kindSet = set (crit_kind crit);
          typeSet = set (crit_type crit);
          tagSet = set (crit_tags crit)
      in filter_array (filterCards_raw_callback toLowerCase textLower kindSet typeSet tagSet) cards)"

text \<open>A card of the data model as a card of JSON values.\<close>

definition raw_of :: "card \<Rightarrow> raw_card" where
  "raw_of c =
     \<lparr>raw_id = Str (card_id c), raw_name = Str (name c), raw_kind = Str (kind c),
      raw_type = (case type c of
                    NoType \<Rightarrow> Undefined
                  | OneType t \<Rightarrow> Str t
                  | TypeArray ts \<Rightarrow> Arr (map Str ts)),
      raw_tags = (case tags c of NotArray \<Rightarrow> Undefined | TagArray ts \<Rightarrow> Arr (map Str ts))\<rparr>"

section \<open>Deck code codec\<close>

text \<open>\<open>Array(n).fill(v)\<close> for an integer \<open>n\<close>: a length that is negative or not below
  \<open>2^32\<close> is a \<open>RangeError\<close>.\<close>

definition Array_fill :: "int \<Rightarrow> 'a \<Rightarrow> error + 'a list" where
  "Array_fill n v = (if 0 \<le> n \<and> n < 2 ^ 32 then Inr (replicate (nat n) v) else Inl RangeError)"

fun flatMap :: "('a \<Rightarrow> error + 'b list) \<Rightarrow> 'a list \<Rightarrow> error + 'b list" where
  "flatMap f [] = Inr []"
| "flatMap f (x # xs) =
     (case f x of
        Inl e \<Rightarrow> Inl e
      | Inr ys \<Rightarrow> (case flatMap f xs of Inl e \<Rightarrow> Inl e | Inr zs \<Rightarrow> Inr (ys @ zs)))"

text \<open>\<open>cardIds.join('/')\<close> and \<open>code.split('/')\<close>; the empty string splits into one
  empty piece.\<close>

fun join_str :: "char \<Rightarrow> string list \<Rightarrow> string" where
  "join_str sep [] = []"
| "join_str sep [x] = x"
| "join_str sep (x # y # ys) = x @ sep # join_str sep (y # ys)"

fun split_str :: "char \<Rightarrow> string \<Rightarrow> string list" where
  "split_str sep [] = [[]]"
| "split_str sep (c # cs) =
     (if c = sep then [] # split_str sep cs
      else (case split_str sep cs of [] \<Rightarrow> [[c]] | piece # pieces \<Rightarrow> (c # piece) # pieces))"

definition encodeDeckCode :: "entry list \<Rightarrow> error + string" where
  "encodeDeckCode deck =
     (case flatMap (\<lambda>item. Array_fill (item_count item) (card_id (item_card item))) deck of
        Inl e \<Rightarrow> Inl e
      | Inr cardIds \<Rightarrow> Inr (join_str CHR ''/'' cardIds))"

text \<open>A JavaScript \<open>Map\<close> keeps its keys in the order of their first insertion: a list of
  pairs with one pair for each key.\<close>

fun Map_get :: "('k \<times> 'v) list \<Rightarrow> 'k \<Rightarrow> 'v option" where
  "Map_get [] k = None"
| "Map_get ((k', v) # m) k = (if k' = k then Some v else Map_get m k)"

fun Map_set :: "('k \<times> 'v) list \<Rightarrow> 'k \<Rightarrow> 'v \<Rightarrow> ('k \<times> 'v) list" where
  "Map_set [] k v = [(k, v)]"
| "Map_set ((k', v') # m) k v = (if k' = k then (k, v) # m else (k', v') # Map_set m k v)"

text \<open>\<open>cardCounts.set(id, (cardCounts.get(id) || 0) + 1)\<close>: \<open>||\<close> replaces \<open>undefined\<close>
  and \<open>0\<close> by \<open>0\<close>.\<close>

definition count_id :: "string \<Rightarrow> (string \<times> int) list \<Rightarrow> (string \<times> int) list" where
  "count_id i cardCounts =
     Map_set cardCounts i
       ((case Map_get cardCounts i of None \<Rightarrow> 0 | Some n \<Rightarrow> if n = 0 then 0 else n) + 1)"

text \<open>The first argument is the catalog, \<open>availableCards.value\<close>.\<close>

definition decodeDeckCode :: "card list \<Rightarrow> string \<Rightarrow> entry list" where
  "decodeDeckCode availableCards code =
     (let cardIds = split_str CHR ''/'' code;
          cardCounts = fold count_id cardIds []
      in concat (map (\<lambda>(i, n).
                        case find (\<lambda>c. card_id c = i) availableCards of
                          None \<Rightarrow> []
                        | Some c \<Rightarrow> [\<lparr>item_card = c, item_count = n\<rparr>])
                     cardCounts))"

text \<open>\<open>decodeDeckCode\<close> throws nothing on a string, so the \<open>catch\<close> branch of
  \<open>importDeckFromCode\<close> is never taken.\<close>

definition importDeckFromCode :: "card list \<Rightarrow> state \<Rightarrow> alert option \<times> state" where
  "importDeckFromCode availableCards s =
     (let importedCards = decodeDeckCode availableCards (importDeckCode s) in
      if length importedCards > 0
      then (None, s\<lparr>deckCards := importedCards, importDeckCode := [], showDeckCodeModal := False\<rparr>)
      else (Some NoValidCards, s))"

section \<open>Stand-ins for the host's string functions\<close>

text \<open>\<open>toLowerCase\<close> on ASCII letters and a comparison by code units, to run the
  functions above on concrete strings.\<close>

definition ascii_lower_char :: "char \<Rightarrow> char" where
  "ascii_lower_char c =
     (if (65::nat) \<le> of_char c \<and> (of_char c :: nat) \<le> 90 then char_of (of_char c + (32::nat)) else c)"

definition ascii_toLowerCase :: "string \<Rightarrow> string" where
  "ascii_toLowerCase s = map ascii_lower_char s"

fun code_unit_compare :: "string \<Rightarrow> string \<Rightarrow> int" where
  "code_unit_compare [] [] = 0"
| "code_unit_compare [] (y # ys) = -1"
| "code_unit_compare (x # xs) [] = 1"
| "code_unit_compare (x # xs) (y # ys) =
     (if (of_char x :: nat) < of_char y then -1
      else if (of_char y :: nat) < of_char x then 1
      else code_unit_compare xs ys)"


section \<open>Notions used to state the properties\<close>

text \<open>The types a card carries, as the list the loop of \<open>getEarliestTypeIndex\<close> runs over; a
  card without a type carries none.\<close>

fun card_types :: "type_field \<Rightarrow> string list" where
  "card_types NoType = []"
| "card_types (OneType t) = [t]"
| "card_types (TypeArray ts) = ts"





text \<open>The sign of a comparator's result, as \<open>Array.prototype.sort\<close> reads it: \<open>NaN\<close> counts
  as zero.\<close>

fun sign_of :: "number \<Rightarrow> int" where
  "sign_of (Finite i) = sgn i"
| "sign_of PosInfinity = 1"
| "sign_of NegInfinity = -1"
| "sign_of NaN = 0"

text \<open>The tags a card carries; a \<open>tags\<close> field that is no array carries none.\<close>

fun card_tags :: "tags_field \<Rightarrow> string list" where
  "card_tags NotArray = []"
| "card_tags (TagArray ts) = ts"

text \<open>The contract of the filter in the words of the specification: \<open>t\<close> is a
  case-insensitive substring of \<open>s\<close>, and a card matches the criteria.\<close>

definition ci_substring :: "(string \<Rightarrow> string) \<Rightarrow> string \<Rightarrow> string \<Rightarrow> bool" where
  "ci_substring toLowerCase t s \<longleftrightarrow> sublist (toLowerCase t) (toLowerCase s)"

definition matches :: "(string \<Rightarrow> string) \<Rightarrow> card \<Rightarrow> criteria \<Rightarrow> bool" where
  "matches toLowerCase c crit \<longleftrightarrow>
     (crit_text crit = [] \<or>
      ci_substring toLowerCase (crit_text crit) (name c) \<or>
      ci_substring toLowerCase (crit_text crit) (card_id c) \<or>
      (\<exists>tag \<in> set (card_tags (tags c)). ci_substring toLowerCase (crit_text crit) tag)) \<and>
     (crit_kind crit = [] \<or> kind c \<in> set (crit_kind crit)) \<and>
     (crit_type crit = [] \<or> (\<exists>t \<in> set (card_types (type c)). t \<in> set (crit_type crit))) \<and>
     (crit_tags crit = [] \<or> set (card_tags (tags c)) \<inter> set (crit_tags crit) \<noteq> {})"

text \<open>The pair of id and count that an entry stands for.\<close>

definition id_count :: "entry \<Rightarrow> string \<times> int" where
  "id_count e = (card_id (item_card e), item_count e)"

section \<open>Example data\<close>

text \<open>Two cards and a store state, to run the operations on.\<close>

definition card_AA1 :: card where
  "card_AA1 = \<lparr>card_id = ''AA-1'', name = ''Kafu'', kind = ''Artist'',
               type = OneType [CHR 0xE8, CHR 0xB5, CHR 0xA4], tags = TagArray [''V.W.P'']\<rparr>"

definition card_AA2 :: card where
  "card_AA2 = \<lparr>card_id = ''AA-2'', name = ''Uta'', kind = ''Song'',
               type = TypeArray [[CHR 0xE9, CHR 0x9D, CHR 0x92], [CHR 0xE8, CHR 0xB5, CHR 0xA4]],
               tags = NotArray\<rparr>"

definition state0 :: "entry list \<Rightarrow> state" where
  "state0 deck = \<lparr>deckCards = deck, deckName = defaultDeckName, importDeckCode = [],
                  showDeckCodeModal = False\<rparr>"

text \<open>A full deck: fifteen cards, four copies of each.\<close>

definition deck60 :: "entry list" where
  "deck60 = map (\<lambda>i. \<lparr>item_card = card_AA1\<lparr>card_id := i\<rparr>, item_count = 4\<rparr>)
     [''A-1'', ''A-2'', ''A-3'', ''A-4'', ''A-5'', ''A-6'', ''A-7'', ''A-8'', ''A-9'', ''A-10'',
      ''A-11'', ''A-12'', ''A-13'', ''A-14'', ''A-15'']"

text \<open>A card of a kind and a type that the enumerations do not have.\<close>

definition card_unknown :: card where
  "card_unknown = \<lparr>card_id = ''ZZ-1'', name = ''Nazo'', kind = ''Stage'',
                   type = OneType ''violet'', tags = TagArray []\<rparr>"

text \<open>Criteria that name a text, a kind, a type and a tag.\<close>

definition criteria_kafu :: criteria where
  "criteria_kafu = \<lparr>crit_text = ''kA'', crit_kind = [''Artist''],
                    crit_type = [[CHR 0xE8, CHR 0xB5, CHR 0xA4]], crit_tags = [''V.W.P'']\<rparr>"

text \<open>A catalog for the examples of the codec, and a deck built from it.\<close>

definition card_X1 :: card where
  "card_X1 = \<lparr>card_id = ''X-1'', name = ''Hana'', kind = ''Artist'',
              type = OneType [CHR 0xE9, CHR 0x9D, CHR 0x92], tags = TagArray []\<rparr>"

definition card_Y2 :: card where
  "card_Y2 = \<lparr>card_id = ''Y-2'', name = ''Mahou'', kind = ''Magic'', type = NoType,
              tags = NotArray\<rparr>"

definition deck_X1_Y2 :: "entry list" where
  "deck_X1_Y2 = [\<lparr>item_card = card_X1, item_count = 2\<rparr>, \<lparr>item_card = card_Y2, item_count = 1\<rparr>]"

text \<open>The card \<open>{ id: 'Q-1', kind: 'Song' }\<close>, without name, type and tags, the same card
  with a name, and a card of empty id.\<close>

definition raw_Q1 :: raw_card where
  "raw_Q1 = \<lparr>raw_id = Str ''Q-1'', raw_name = Undefined, raw_kind = Str ''Song'',
             raw_type = Undefined, raw_tags = Undefined\<rparr>"

definition raw_Q1_named :: raw_card where
  "raw_Q1_named = raw_Q1\<lparr>raw_name := Str ''Quartz''\<rparr>"

definition card_empty_id :: card where
  "card_empty_id = \<lparr>card_id = [], name = ''Mumei'', kind = ''Song'', type = NoType,
                    tags = TagArray []\<rparr>"

section \<open>Facts about the deck store\<close>

lemma findIndex_ge: "findIndex P xs \<ge> -1"
  by (induction xs) (auto simp: Let_def)

lemma findIndex_none: "findIndex P xs = -1 \<longleftrightarrow> (\<forall>x \<in> set xs. \<not> P x)"
proof (induction xs)
  case Nil
  then show ?case by simp
next
  case (Cons x xs)
  have "findIndex P xs \<ge> -1" by (rule findIndex_ge)
  with Cons show ?case by (auto simp: Let_def)
qed

lemma findIndex_found:
  assumes "findIndex P xs \<noteq> -1"
  shows "0 \<le> findIndex P xs \<and> nat (findIndex P xs) < length xs \<and> P (xs ! nat (findIndex P xs))
         \<and> (\<forall>j < nat (findIndex P xs). \<not> P (xs ! j))"
  using assms
proof (induction xs)
  case Nil
  then show ?case by simp
next
  case (Cons x xs)
  show ?case
  proof (cases "P x")
    case True
    then show ?thesis by simp
  next
    case False
    with Cons.prems have ne: "findIndex P xs \<noteq> -1" by (auto simp: Let_def)
    from Cons.IH [OF ne] have ih: "0 \<le> findIndex P xs" "nat (findIndex P xs) < length xs"
      "P (xs ! nat (findIndex P xs))" "\<forall>j < nat (findIndex P xs). \<not> P (xs ! j)" by auto
    have eq: "findIndex P (x # xs) = findIndex P xs + 1" using False ne by (simp add: Let_def)
    have n: "nat (findIndex P xs + 1) = Suc (nat (findIndex P xs))" using ih(1) by simp
    show ?thesis unfolding eq n using ih False
      by (auto simp: nth_Cons split: nat.splits)
  qed
qed

lemma findIndex_first:
  assumes "k < length xs" "P (xs ! k)" "\<forall>j < k. \<not> P (xs ! j)"
  shows "findIndex P xs = int k"
proof -
  have ne: "findIndex P xs \<noteq> -1" using assms(1,2) by (auto simp: findIndex_none)
  from findIndex_found [OF ne] have f: "0 \<le> findIndex P xs" "nat (findIndex P xs) < length xs"
      "P (xs ! nat (findIndex P xs))" "\<forall>j < nat (findIndex P xs). \<not> P (xs ! j)" by auto
  have "\<not> nat (findIndex P xs) < k" using assms(3) f(3) by blast
  moreover have "\<not> k < nat (findIndex P xs)" using f(4) assms(2) by blast
  ultimately have "nat (findIndex P xs) = k" by simp
  with f(1) show ?thesis by simp
qed

lemma totalDeckCards_sum: "totalDeckCards deck = sum_list (map item_count deck)"
proof -
  have "foldl (\<lambda>sum item. sum + item_count item) a deck = a + sum_list (map item_count deck)" for a
    by (induction deck arbitrary: a) auto
  then show ?thesis by (simp add: totalDeckCards_def)
qed

lemma total_update:
  "k < length deck \<Longrightarrow>
   totalDeckCards (deck[k := e]) = totalDeckCards deck - item_count (deck ! k) + item_count e"
  unfolding totalDeckCards_sum
proof (induction deck arbitrary: k)
  case Nil
  then show ?case by simp
next
  case (Cons a deck)
  then show ?case by (cases k) auto
qed

lemma total_filter_le:
  "\<forall>e \<in> set deck. 0 \<le> item_count e \<Longrightarrow> totalDeckCards (filter P deck) \<le> totalDeckCards deck"
  unfolding totalDeckCards_sum by (induction deck) auto

lemma ids_update:
  "k < length deck \<Longrightarrow> item_card e = item_card (deck ! k) \<Longrightarrow>
   map (\<lambda>e. card_id (item_card e)) (deck[k := e]) = map (\<lambda>e. card_id (item_card e)) deck"
  by (simp add: list_eq_iff_nth_eq nth_list_update)

lemma deck_inv_update:
  assumes "deck_inv deck" "k < length deck" "item_card e = item_card (deck ! k)"
    "1 \<le> item_count e" "item_count e \<le> 4"
    "totalDeckCards deck - item_count (deck ! k) + item_count e \<le> 60"
  shows "deck_inv (deck[k := e])"
proof -
  have "\<forall>x \<in> set (deck[k := e]). 1 \<le> item_count x \<and> item_count x \<le> 4"
    using assms(1,4,5) set_update_subset_insert [of deck k e] by (auto simp: deck_inv_def)
  moreover have "totalDeckCards (deck[k := e]) \<le> 60"
    using assms(2,6) by (simp add: total_update)
  moreover have "distinct (map (\<lambda>e. card_id (item_card e)) (deck[k := e]))"
    using assms(1,2,3) by (simp add: ids_update deck_inv_def)
  ultimately show ?thesis by (simp add: deck_inv_def)
qed

lemma deck_inv_filter: "deck_inv deck \<Longrightarrow> deck_inv (filter P deck)"
proof -
  assume a: "deck_inv deck"
  then have "\<forall>e \<in> set deck. 0 \<le> item_count e" by (auto simp: deck_inv_def)
  then have "totalDeckCards (filter P deck) \<le> totalDeckCards deck" by (rule total_filter_le)
  with a show ?thesis by (auto simp: deck_inv_def distinct_map_filter)
qed

lemma deck_inv_append:
  assumes "deck_inv deck" "totalDeckCards deck < 60" "\<forall>e \<in> set deck. card_id (item_card e) \<noteq> card_id c"
  shows "deck_inv (deck @ [\<lparr>item_card = c, item_count = 1\<rparr>])"
  using assms by (auto simp: deck_inv_def totalDeckCards_sum)

lemma addCardToDeck_inv:
  assumes "deck_inv (deckCards s)"
  shows "deck_inv (deckCards (snd (addCardToDeck c s)))"
proof (cases "totalDeckCards (deckCards s) \<ge> 60")
  case True
  then show ?thesis using assms by (simp add: addCardToDeck_def)
next
  case lt: False
  let ?P = "\<lambda>item. card_id (item_card item) = card_id c"
  show ?thesis
  proof (cases "findIndex ?P (deckCards s) = -1")
    case True
    then have "\<forall>e \<in> set (deckCards s). card_id (item_card e) \<noteq> card_id c"
      by (simp add: findIndex_none)
    with assms lt have "deck_inv (deckCards s @ [\<lparr>item_card = c, item_count = 1\<rparr>])"
      by (intro deck_inv_append) auto
    then show ?thesis using lt True by (simp add: addCardToDeck_def)
  next
    case False
    from findIndex_found [OF False]
    have f: "0 \<le> findIndex ?P (deckCards s)" "nat (findIndex ?P (deckCards s)) < length (deckCards s)"
      by auto
    let ?k = "nat (findIndex ?P (deckCards s))"
    have upd: "item_count (deckCards s ! ?k) < 4 \<Longrightarrow>
        deck_inv ((deckCards s)[?k := (deckCards s ! ?k)\<lparr>item_count := item_count (deckCards s ! ?k) + 1\<rparr>])"
    proof -
      assume c4: "item_count (deckCards s ! ?k) < 4"
      have "deckCards s ! ?k \<in> set (deckCards s)" using f(2) by simp
      then have "1 \<le> item_count (deckCards s ! ?k)" using assms by (auto simp: deck_inv_def)
      then show ?thesis using assms f(2) c4 lt by (intro deck_inv_update) auto
    qed
    show ?thesis using lt False f upd assms
      by (auto simp: addCardToDeck_def Let_def)
  qed
qed

lemma incrementCardCount_inv:
  assumes "deck_inv (deckCards s)"
  shows "deck_inv (deckCards (snd (incrementCardCount i s)))"
proof -
  let ?P = "\<lambda>item. card_id (item_card item) = i"
  let ?k = "nat (findIndex ?P (deckCards s))"
  let ?e = "deckCards s ! ?k"
  have upd: "deck_inv ((deckCards s)[?k := ?e\<lparr>item_count := item_count ?e + 1\<rparr>])"
    if ne: "findIndex ?P (deckCards s) \<noteq> -1" and c4: "item_count ?e < 4"
      and lt: "totalDeckCards (deckCards s) < 60"
  proof -
    from findIndex_found [OF ne] have k: "?k < length (deckCards s)" by auto
    then have "?e \<in> set (deckCards s)" by simp
    then have "1 \<le> item_count ?e" using assms by (auto simp: deck_inv_def)
    then show ?thesis using assms k c4 lt by (intro deck_inv_update) auto
  qed
  show ?thesis using assms upd by (auto simp: incrementCardCount_def Let_def)
qed

lemma removeCardFromDeck_inv:
  "deck_inv (deckCards s) \<Longrightarrow> deck_inv (deckCards (removeCardFromDeck i s))"
  by (simp add: removeCardFromDeck_def deck_inv_filter)

lemma decrementCardCount_inv:
  assumes "deck_inv (deckCards s)"
  shows "deck_inv (deckCards (decrementCardCount i s))"
proof -
  let ?P = "\<lambda>item. card_id (item_card item) = i"
  let ?k = "nat (findIndex ?P (deckCards s))"
  let ?e = "deckCards s ! ?k"
  have upd: "deck_inv ((deckCards s)[?k := ?e\<lparr>item_count := item_count ?e - 1\<rparr>])"
    if ne: "findIndex ?P (deckCards s) \<noteq> -1" and c1: "1 < item_count ?e"
  proof -
    from findIndex_found [OF ne] have k: "?k < length (deckCards s)" by auto
    then have "?e \<in> set (deckCards s)" by simp
    then have "item_count ?e \<le> 4" using assms by (auto simp: deck_inv_def)
    moreover have "totalDeckCards (deckCards s) \<le> 60" using assms by (simp add: deck_inv_def)
    ultimately show ?thesis using assms k c1 by (intro deck_inv_update) auto
  qed
  show ?thesis using assms upd removeCardFromDeck_inv [OF assms, of i]
    by (auto simp: decrementCardCount_def Let_def)
qed

lemma deck_inv_empty: "deck_inv []"
  by (simp add: deck_inv_def totalDeckCards_def)

lemma resetDeck_inv: "deck_inv (deckCards s) \<Longrightarrow> deck_inv (deckCards (resetDeck b s))"
  by (simp add: resetDeck_def deck_inv_empty)

lemma apply_op_inv: "deck_inv (deckCards s) \<Longrightarrow> deck_inv (deckCards (apply_op x s))"
  by (cases x)
    (simp_all add: addCardToDeck_inv incrementCardCount_inv decrementCardCount_inv
      removeCardFromDeck_inv resetDeck_inv)

text \<open>C1: from a deck that satisfies the invariants (every count between 1 and 4, the
  counts summing to at most 60, no entry of count zero, one entry for each card id at most),
  every sequence of \<open>addCardToDeck\<close>, \<open>incrementCardCount\<close>, \<open>decrementCardCount\<close>,
  \<open>removeCardFromDeck\<close> and \<open>resetDeck\<close> leads to a deck that satisfies them.\<close>

theorem store_ops_preserve_invariants:
  "deck_inv (deckCards s) \<Longrightarrow> deck_inv (deckCards (run_ops ops s))"
  unfolding run_ops_def
proof (induction ops arbitrary: s)
  case Nil
  then show ?case by simp
next
  case (Cons x ops)
  from Cons.prems have "deck_inv (deckCards (apply_op x s))" by (rule apply_op_inv)
  then show ?case using Cons.IH by simp
qed

theorem store_ops_preserve_invariants_witness:
  "deck_inv (deckCards (state0 [\<lparr>item_card = card_AA1, item_count = 4\<rparr>])) \<and>
   deck_inv (deckCards (run_ops [AddCard card_AA1, AddCard card_AA2, Increment ''AA-2'',
                                 Decrement ''AA-1'', Remove ''AA-2'', Decrement ''AA-9'']
                          (state0 [\<lparr>item_card = card_AA1, item_count = 4\<rparr>])))"
proof -
  have h: "deck_inv (deckCards (state0 [\<lparr>item_card = card_AA1, item_count = 4\<rparr>]))"
    by (simp add: deck_inv_def state0_def totalDeckCards_def)
  show ?thesis using h store_ops_preserve_invariants [OF h] by simp
qed

subsection \<open>\<open>addCardToDeck\<close>\<close>

lemma addCardToDeck_full:
  "totalDeckCards (deckCards s) \<ge> 60 \<Longrightarrow> addCardToDeck c s = (Some DeckFull, s)"
  by (simp add: addCardToDeck_def)

lemma addCardToDeck_existing:
  assumes lt: "totalDeckCards (deckCards s) < 60"
    and k: "k < length (deckCards s)"
    and idk: "card_id (item_card (deckCards s ! k)) = card_id c"
    and first: "\<forall>j < k. card_id (item_card (deckCards s ! j)) \<noteq> card_id c"
  shows "addCardToDeck c s =
           (if item_count (deckCards s ! k) < 4
            then (None, s\<lparr>deckCards :=
                    (deckCards s)[k := (deckCards s ! k)\<lparr>item_count := item_count (deckCards s ! k) + 1\<rparr>]\<rparr>)
            else (None, s))"
proof -
  have "findIndex (\<lambda>item. card_id (item_card item) = card_id c) (deckCards s) = int k"
    using k idk first by (intro findIndex_first) auto
  then show ?thesis using lt by (simp add: addCardToDeck_def Let_def)
qed

lemma addCardToDeck_new:
  assumes lt: "totalDeckCards (deckCards s) < 60"
    and new: "\<forall>e \<in> set (deckCards s). card_id (item_card e) \<noteq> card_id c"
  shows "addCardToDeck c s = (None, s\<lparr>deckCards := deckCards s @ [\<lparr>item_card = c, item_count = 1\<rparr>]\<rparr>)"
proof -
  have "findIndex (\<lambda>item. card_id (item_card item) = card_id c) (deckCards s) = -1"
    using new by (simp add: findIndex_none)
  then show ?thesis using lt by (simp add: addCardToDeck_def Let_def)
qed

lemma add_empty: "addCardToDeck c (s\<lparr>deckCards := []\<rparr>) =
    (None, s\<lparr>deckCards := [\<lparr>item_card = c, item_count = 1\<rparr>]\<rparr>)"
  by (simp add: addCardToDeck_def totalDeckCards_def Let_def)

lemma add_single:
  "addCardToDeck c (s\<lparr>deckCards := [\<lparr>item_card = c, item_count = n\<rparr>]\<rparr>) =
     (if n \<ge> 60 then (Some DeckFull, s\<lparr>deckCards := [\<lparr>item_card = c, item_count = n\<rparr>]\<rparr>)
      else if n < 4 then (None, s\<lparr>deckCards := [\<lparr>item_card = c, item_count = n + 1\<rparr>]\<rparr>)
      else (None, s\<lparr>deckCards := [\<lparr>item_card = c, item_count = n\<rparr>]\<rparr>))"
  by (simp add: addCardToDeck_def totalDeckCards_def Let_def)

lemma add_four_times:
  "run_ops (replicate 4 (AddCard c)) (s\<lparr>deckCards := []\<rparr>) =
     s\<lparr>deckCards := [\<lparr>item_card = c, item_count = 4\<rparr>]\<rparr>"
  by (simp add: run_ops_def numeral_eq_Suc add_empty add_single)

lemma add_fifth_time:
  "addCardToDeck c (s\<lparr>deckCards := [\<lparr>item_card = c, item_count = 4\<rparr>]\<rparr>) =
     (None, s\<lparr>deckCards := [\<lparr>item_card = c, item_count = 4\<rparr>]\<rparr>)"
  by (simp add: add_single)

text \<open>C3: \<open>addCardToDeck\<close> on a deck of total count 60 or more shows the capacity alert
  and leaves the state as it is. Below 60, when the deck has an entry with the card's id (the
  first one is at index \<open>k\<close>), its count goes up by one if it is below 4 and nothing
  changes otherwise, without an alert; when the deck has no such entry, an entry of count 1 is
  appended. So four calls with the same card on an empty deck give one entry of count 4,
  a fifth call changes nothing, and five calls give that one entry of count 4.\<close>

theorem addCardToDeck_behaviour:
  "(totalDeckCards (deckCards s) \<ge> 60 \<longrightarrow> addCardToDeck c s = (Some DeckFull, s)) \<and>
   (totalDeckCards (deckCards s) < 60 \<and> k < length (deckCards s) \<and>
    card_id (item_card (deckCards s ! k)) = card_id c \<and>
    (\<forall>j < k. card_id (item_card (deckCards s ! j)) \<noteq> card_id c) \<longrightarrow>
      addCardToDeck c s =
        (if item_count (deckCards s ! k) < 4
         then (None, s\<lparr>deckCards :=
                 (deckCards s)[k := (deckCards s ! k)\<lparr>item_count := item_count (deckCards s ! k) + 1\<rparr>]\<rparr>)
         else (None, s))) \<and>
   (totalDeckCards (deckCards s) < 60 \<and>
    (\<forall>e \<in> set (deckCards s). card_id (item_card e) \<noteq> card_id c) \<longrightarrow>
      addCardToDeck c s =
        (None, s\<lparr>deckCards := deckCards s @ [\<lparr>item_card = c, item_count = 1\<rparr>]\<rparr>)) \<and>
   run_ops (replicate 4 (AddCard c)) (s\<lparr>deckCards := []\<rparr>) =
     s\<lparr>deckCards := [\<lparr>item_card = c, item_count = 4\<rparr>]\<rparr> \<and>
   addCardToDeck c (run_ops (replicate 4 (AddCard c)) (s\<lparr>deckCards := []\<rparr>)) =
     (None, run_ops (replicate 4 (AddCard c)) (s\<lparr>deckCards := []\<rparr>)) \<and>
   deckCards (run_ops (replicate 5 (AddCard c)) (s\<lparr>deckCards := []\<rparr>)) =
     [\<lparr>item_card = c, item_count = 4\<rparr>]"
proof -
  have five: "replicate 5 (AddCard c) = replicate 4 (AddCard c) @ [AddCard c]"
    by (simp add: numeral_eq_Suc)
  have r5: "run_ops (replicate 5 (AddCard c)) (s\<lparr>deckCards := []\<rparr>) =
      snd (addCardToDeck c (run_ops (replicate 4 (AddCard c)) (s\<lparr>deckCards := []\<rparr>)))"
    unfolding five by (simp add: run_ops_def)
  show ?thesis
    unfolding r5 add_four_times add_fifth_time
    using addCardToDeck_full [of s c] addCardToDeck_existing [of s k c] addCardToDeck_new [of s c]
    by simp
qed

theorem addCardToDeck_behaviour_witness:
  "totalDeckCards (deckCards (state0 deck60)) \<ge> 60 \<and>
   addCardToDeck card_AA2 (state0 deck60) = (Some DeckFull, state0 deck60) \<and>
   totalDeckCards (deckCards (state0 [\<lparr>item_card = card_AA2, item_count = 1\<rparr>,
                                     \<lparr>item_card = card_AA1, item_count = 3\<rparr>])) < 60 \<and>
   addCardToDeck card_AA1 (state0 [\<lparr>item_card = card_AA2, item_count = 1\<rparr>,
                                   \<lparr>item_card = card_AA1, item_count = 3\<rparr>]) =
     (None, state0 [\<lparr>item_card = card_AA2, item_count = 1\<rparr>,
                    \<lparr>item_card = card_AA1, item_count = 4\<rparr>]) \<and>
   addCardToDeck card_AA1 (state0 [\<lparr>item_card = card_AA2, item_count = 1\<rparr>]) =
     (None, state0 [\<lparr>item_card = card_AA2, item_count = 1\<rparr>,
                    \<lparr>item_card = card_AA1, item_count = 1\<rparr>])"
  using addCardToDeck_behaviour [of "state0 deck60" card_AA2 0]
    addCardToDeck_behaviour [of "state0 [\<lparr>item_card = card_AA2, item_count = 1\<rparr>,
                                        \<lparr>item_card = card_AA1, item_count = 3\<rparr>]" card_AA1 1]
    addCardToDeck_behaviour [of "state0 [\<lparr>item_card = card_AA2, item_count = 1\<rparr>]" card_AA1 0]
  by (simp add: state0_def deck60_def totalDeckCards_def card_AA1_def card_AA2_def)

subsection \<open>\<open>kindSort\<close> and \<open>typeSort\<close>\<close>

lemma indexOf_absent: "indexOf xs v = -1 \<longleftrightarrow> v \<notin> set xs"
  by (auto simp: indexOf_def findIndex_none)

lemma indexOf_present:
  assumes "v \<in> set xs"
  shows "0 \<le> indexOf xs v \<and> indexOf xs v < int (length xs)"
proof -
  have ne: "findIndex (\<lambda>x. x = v) xs \<noteq> -1" using assms by (simp add: findIndex_none)
  from findIndex_found [OF ne] show ?thesis by (auto simp: indexOf_def)
qed

lemma earliest_fold:
  "fold (\<lambda>type minIndex.
           let index = indexOf order type
           in if index \<noteq> -1 \<and> index < minIndex then index else minIndex) ts m
   = Min (insert m (indexOf order ` (set ts \<inter> set order)))"
proof (induction ts arbitrary: m)
  case Nil
  then show ?case by simp
next
  case (Cons t ts)
  let ?f = "\<lambda>type minIndex.
           let index = indexOf order type
           in if index \<noteq> -1 \<and> index < minIndex then index else minIndex"
  show ?case
  proof (cases "t \<in> set order")
    case True
    then have ne: "indexOf order t \<noteq> -1" by (simp add: indexOf_absent)
    have fin: "finite (indexOf order ` (set ts \<inter> set order))" by simp
    have s: "indexOf order ` (set (t # ts) \<inter> set order)
             = insert (indexOf order t) (indexOf order ` (set ts \<inter> set order))"
      using True by auto
    have step: "Min (insert (min (indexOf order t) m) S) = Min (insert m (insert (indexOf order t) S))"
      if "finite S" for S :: "int set"
    proof (cases "S = {}")
      case True
      then show ?thesis by (simp add: min.commute)
    next
      case False
      with that show ?thesis by (simp add: min.assoc min.left_commute min.commute)
    qed
    have "fold ?f (t # ts) m = fold ?f ts (min (indexOf order t) m)"
      using ne by (simp add: Let_def min_def)
    also have "\<dots> = Min (insert (min (indexOf order t) m) (indexOf order ` (set ts \<inter> set order)))"
      by (rule Cons.IH)
    also have "\<dots> = Min (insert m (insert (indexOf order t) (indexOf order ` (set ts \<inter> set order))))"
      by (rule step [OF fin])
    finally show ?thesis unfolding s .
  next
    case False
    then have "indexOf order t = -1" by (simp add: indexOf_absent)
    then have "fold ?f (t # ts) m = fold ?f ts m" by (simp add: Let_def)
    also have "\<dots> = Min (insert m (indexOf order ` (set ts \<inter> set order)))"
      by (rule Cons.IH)
    also have "set ts \<inter> set order = set (t # ts) \<inter> set order" using False by auto
    finally show ?thesis .
  qed
qed

lemma getEarliestTypeIndex_Min:
  "getEarliestTypeIndex ty =
     Min (insert (int (length allTypes)) (indexOf allTypes ` (set (card_types ty) \<inter> set allTypes)))"
proof (cases ty)
  case NoType
  then show ?thesis by (simp add: getEarliestTypeIndex_def)
next
  case (OneType t)
  show ?thesis
  proof (cases "t = []")
    case True
    have "[] \<notin> set allTypes" by (simp add: allTypes_def)
    then show ?thesis using OneType True by (simp add: getEarliestTypeIndex_def)
  next
    case False
    then show ?thesis using OneType earliest_fold [of allTypes "[t]" "int (length allTypes)"]
      by (simp add: getEarliestTypeIndex_def Let_def)
  qed
next
  case (TypeArray ts)
  then show ?thesis using earliest_fold [of allTypes ts "int (length allTypes)"]
    by (simp add: getEarliestTypeIndex_def Let_def)
qed

lemma getEarliestTypeIndex_unrecognized:
  "set (card_types ty) \<inter> set allTypes = {} \<Longrightarrow> getEarliestTypeIndex ty = int (length allTypes)"
  by (simp add: getEarliestTypeIndex_Min)

lemma getEarliestTypeIndex_recognized:
  assumes "set (card_types ty) \<inter> set allTypes \<noteq> {}"
  shows "getEarliestTypeIndex ty = Min (indexOf allTypes ` (set (card_types ty) \<inter> set allTypes))"
    and "getEarliestTypeIndex ty < int (length allTypes)"
proof -
  let ?S = "indexOf allTypes ` (set (card_types ty) \<inter> set allTypes)"
  have fin: "finite ?S" and ne: "?S \<noteq> {}" using assms by auto
  have lt: "\<forall>i \<in> ?S. i < int (length allTypes)" using indexOf_present [of _ allTypes] by auto
  have "Min ?S \<in> ?S" using fin ne by (rule Min_in)
  with lt have m: "Min ?S < int (length allTypes)" by blast
  have "getEarliestTypeIndex ty = min (int (length allTypes)) (Min ?S)"
    unfolding getEarliestTypeIndex_Min using fin ne by (rule Min_insert)
  with m show "getEarliestTypeIndex ty = Min ?S" and "getEarliestTypeIndex ty < int (length allTypes)"
    by simp_all
qed

lemma kindSort_unknown_first:
  assumes "kind a \<notin> set allKinds" "kind b \<in> set allKinds"
  shows "kindSort a b < 0"
proof -
  have "indexOf allKinds (kind a) = -1" using assms(1) by (simp add: indexOf_absent)
  moreover have "0 \<le> indexOf allKinds (kind b)" using indexOf_present [OF assms(2)] by simp
  ultimately show ?thesis by (simp add: kindSort_def Let_def)
qed

lemma indexOf_nth:
  assumes "v \<in> set xs"
  shows "xs ! nat (indexOf xs v) = v" and "\<forall>j < nat (indexOf xs v). xs ! j \<noteq> v"
proof -
  have ne: "findIndex (\<lambda>x. x = v) xs \<noteq> -1" using assms by (simp add: findIndex_none)
  from findIndex_found [OF ne] show "xs ! nat (indexOf xs v) = v"
    and "\<forall>j < nat (indexOf xs v). xs ! j \<noteq> v"
    by (auto simp: indexOf_def)
qed

text \<open>C9: \<open>kindSort\<close> is the difference of the indices of the two kinds in the four kinds,
  and \<open>typeSort\<close> the difference of the earliest type indices in the nine types; the index of
  a recognized value is its first position in the enumeration. A kind outside the four
  kinds has index \<open>-1\<close>, and its card sorts before every card of a recognized kind. A card
  with no type among the nine types (or with no type at all) has the index 9, the largest
  there is, and sorts after every card with a recognized type; a card with a recognized type
  has the least index of its recognized types, which is below 9.\<close>

theorem kindSort_typeSort_unrecognized:
  "length allKinds = 4 \<and> length allTypes = 9 \<and>
   kindSort a b = indexOf allKinds (kind a) - indexOf allKinds (kind b) \<and>
   typeSort a b = getEarliestTypeIndex (type a) - getEarliestTypeIndex (type b) \<and>
   (k \<in> set allKinds \<longrightarrow>
      0 \<le> indexOf allKinds k \<and> indexOf allKinds k < 4 \<and> allKinds ! nat (indexOf allKinds k) = k \<and>
      (\<forall>j < nat (indexOf allKinds k). allKinds ! j \<noteq> k)) \<and>
   (t \<in> set allTypes \<longrightarrow>
      0 \<le> indexOf allTypes t \<and> indexOf allTypes t < 9 \<and> allTypes ! nat (indexOf allTypes t) = t \<and>
      (\<forall>j < nat (indexOf allTypes t). allTypes ! j \<noteq> t)) \<and>
   (kind a \<notin> set allKinds \<longrightarrow> indexOf allKinds (kind a) = -1) \<and>
   (kind a \<notin> set allKinds \<and> kind b \<in> set allKinds \<longrightarrow> kindSort a b < 0 \<and> kindSort b a > 0) \<and>
   getEarliestTypeIndex (type b) \<le> 9 \<and>
   (set (card_types (type a)) \<inter> set allTypes = {} \<longrightarrow> getEarliestTypeIndex (type a) = 9) \<and>
   (set (card_types (type b)) \<inter> set allTypes \<noteq> {} \<longrightarrow>
      getEarliestTypeIndex (type b) =
        Min (indexOf allTypes ` (set (card_types (type b)) \<inter> set allTypes)) \<and>
      getEarliestTypeIndex (type b) < 9) \<and>
   (set (card_types (type a)) \<inter> set allTypes = {} \<and>
    set (card_types (type b)) \<inter> set allTypes \<noteq> {} \<longrightarrow> typeSort a b > 0 \<and> typeSort b a < 0)"
proof -
  have l4: "length allKinds = 4" by (simp add: allKinds_def)
  have l9: "length allTypes = 9" by (simp add: allTypes_def)
  have ks: "kindSort a b = indexOf allKinds (kind a) - indexOf allKinds (kind b)"
    by (simp add: kindSort_def Let_def)
  have ts: "typeSort a b = getEarliestTypeIndex (type a) - getEarliestTypeIndex (type b)"
    by (simp add: typeSort_def Let_def)
  have ik: "k \<in> set allKinds \<longrightarrow>
      0 \<le> indexOf allKinds k \<and> indexOf allKinds k < 4 \<and> allKinds ! nat (indexOf allKinds k) = k \<and>
      (\<forall>j < nat (indexOf allKinds k). allKinds ! j \<noteq> k)"
    using indexOf_present [of k allKinds] indexOf_nth [of k allKinds] l4 by simp
  have it: "t \<in> set allTypes \<longrightarrow>
      0 \<le> indexOf allTypes t \<and> indexOf allTypes t < 9 \<and> allTypes ! nat (indexOf allTypes t) = t \<and>
      (\<forall>j < nat (indexOf allTypes t). allTypes ! j \<noteq> t)"
    using indexOf_present [of t allTypes] indexOf_nth [of t allTypes] l9 by simp
  have unk: "kind a \<notin> set allKinds \<longrightarrow> indexOf allKinds (kind a) = -1"
    by (simp add: indexOf_absent)
  have first: "kind a \<notin> set allKinds \<and> kind b \<in> set allKinds \<longrightarrow>
      kindSort a b < 0 \<and> kindSort b a > 0"
    using kindSort_unknown_first [of a b] indexOf_present [of "kind b" allKinds]
    by (auto simp: kindSort_def Let_def indexOf_absent)
  have le: "getEarliestTypeIndex (type b) \<le> 9"
  proof (cases "set (card_types (type b)) \<inter> set allTypes = {}")
    case True
    then show ?thesis using getEarliestTypeIndex_unrecognized [of "type b"] l9 by simp
  next
    case False
    then show ?thesis using getEarliestTypeIndex_recognized(2) [of "type b"] l9 by simp
  qed
  have un: "set (card_types (type a)) \<inter> set allTypes = {} \<longrightarrow> getEarliestTypeIndex (type a) = 9"
    using getEarliestTypeIndex_unrecognized [of "type a"] l9 by simp
  have rec: "set (card_types (type b)) \<inter> set allTypes \<noteq> {} \<longrightarrow>
      getEarliestTypeIndex (type b) =
        Min (indexOf allTypes ` (set (card_types (type b)) \<inter> set allTypes)) \<and>
      getEarliestTypeIndex (type b) < 9"
    using getEarliestTypeIndex_recognized [of "type b"] l9 by simp
  have after: "set (card_types (type a)) \<inter> set allTypes = {} \<and>
      set (card_types (type b)) \<inter> set allTypes \<noteq> {} \<longrightarrow> typeSort a b > 0 \<and> typeSort b a < 0"
    using getEarliestTypeIndex_unrecognized [of "type a"] getEarliestTypeIndex_recognized(2) [of "type b"]
    by (simp add: typeSort_def Let_def)
  show ?thesis
    using l4 l9 ks ts ik it unk first le un rec after by blast
qed

theorem kindSort_typeSort_unrecognized_witness:
  "kind card_unknown \<notin> set allKinds \<and> kind card_AA2 \<in> set allKinds \<and>
   set (card_types (type card_unknown)) \<inter> set allTypes = {} \<and>
   set (card_types (type card_AA2)) \<inter> set allTypes \<noteq> {} \<and>
   indexOf allKinds (kind card_unknown) = -1 \<and>
   indexOf allKinds ''Song'' = 1 \<and>
   kindSort card_unknown card_AA2 = -2 \<and>
   kindSort card_AA2 card_unknown = 2 \<and>
   getEarliestTypeIndex (type card_unknown) = 9 \<and>
   getEarliestTypeIndex (type card_AA2) = 0 \<and>
   typeSort card_unknown card_AA2 = 9 \<and>
   typeSort card_AA2 card_unknown = -9"
proof -
  have k: "kind card_unknown \<notin> set allKinds" "kind card_AA2 \<in> set allKinds"
    "kind card_AA2 = ''Song''"
    by (simp_all add: card_unknown_def card_AA2_def allKinds_def)
  have t: "set (card_types (type card_unknown)) \<inter> set allTypes = {}"
    by (simp add: card_unknown_def allTypes_def)
  have s: "set (card_types (type card_AA2)) \<inter> set allTypes =
      {[CHR 0xE9, CHR 0x9D, CHR 0x92], [CHR 0xE8, CHR 0xB5, CHR 0xA4]}"
    by (auto simp: card_AA2_def allTypes_def)
  have i: "indexOf allTypes [CHR 0xE9, CHR 0x9D, CHR 0x92] = 1"
    "indexOf allTypes [CHR 0xE8, CHR 0xB5, CHR 0xA4] = 0"
    "indexOf allKinds ''Song'' = 1"
    by (simp_all add: indexOf_def allTypes_def allKinds_def)
  show ?thesis
    using k t
      kindSort_typeSort_unrecognized [of card_unknown card_AA2 "''Song''" "[CHR 0xE9, CHR 0x9D, CHR 0x92]"]
      kindSort_typeSort_unrecognized [of card_AA2 card_unknown "''Song''" "[CHR 0xE9, CHR 0x9D, CHR 0x92]"]
    by (simp add: s i)
qed

subsection \<open>The two display comparators\<close>

lemma kindSort_kind_object: "kindSort (kind_object (kind a)) (kind_object (kind b)) = kindSort a b"
  by (simp add: kindSort_def kind_object_def)

lemma typeSort_type_object: "typeSort (type_object (type a)) (type_object (type b)) = typeSort a b"
  by (simp add: typeSort_def type_object_def)

text \<open>C7: the comparator of the deck's display, applied to two entries, returns what the
  comparator of the selectable pool returns on their cards, so the same sign; both are the
  kind order, then the type order, then the natural order of the ids, each used only when
  the ones before it return zero.\<close>

theorem display_comparators_agree:
  "sortedDeckCards_compare localeCompare ea eb =
     sortedAndFilteredAvailableCards_compare localeCompare (item_card ea) (item_card eb) \<and>
   sign_of (sortedDeckCards_compare localeCompare ea eb) =
     sign_of (sortedAndFilteredAvailableCards_compare localeCompare (item_card ea) (item_card eb)) \<and>
   sortedAndFilteredAvailableCards_compare localeCompare a b =
     (if kindSort a b \<noteq> 0 then Finite (kindSort a b)
      else if typeSort a b \<noteq> 0 then Finite (typeSort a b)
      else naturalSort localeCompare (card_id a) (card_id b)) \<and>
   sortedDeckCards_compare localeCompare ea eb =
     (if kindSort (item_card ea) (item_card eb) \<noteq> 0
      then Finite (kindSort (item_card ea) (item_card eb))
      else if typeSort (item_card ea) (item_card eb) \<noteq> 0
      then Finite (typeSort (item_card ea) (item_card eb))
      else naturalSort localeCompare (card_id (item_card ea)) (card_id (item_card eb)))"
  by (simp add: sortedDeckCards_compare_def sortedAndFilteredAvailableCards_compare_def
      kindSort_kind_object typeSort_type_object Let_def)

theorem display_comparators_agree_witness:
  "sortedDeckCards_compare code_unit_compare
      \<lparr>item_card = card_AA2, item_count = 2\<rparr> \<lparr>item_card = card_AA1, item_count = 1\<rparr> = Finite 1 \<and>
   sortedAndFilteredAvailableCards_compare code_unit_compare card_AA2 card_AA1 = Finite 1 \<and>
   sign_of (sortedDeckCards_compare code_unit_compare
      \<lparr>item_card = card_AA2, item_count = 2\<rparr> \<lparr>item_card = card_AA1, item_count = 1\<rparr>) = 1"
proof -
  have "kindSort card_AA2 card_AA1 = 1"
    by (simp add: kindSort_def indexOf_def allKinds_def card_AA1_def card_AA2_def)
  then show ?thesis
    using display_comparators_agree [of code_unit_compare
        "\<lparr>item_card = card_AA2, item_count = 2\<rparr>" "\<lparr>item_card = card_AA1, item_count = 1\<rparr>"
        card_AA2 card_AA1]
    by simp
qed

subsection \<open>\<open>naturalSort\<close>\<close>



















lemma number_differs_same: "x \<noteq> NaN \<Longrightarrow> \<not> number_differs x x"
  by (simp add: number_differs_def)








lemma loop_end_left: "naturalSort_loop lc [] ys = None"
  by simp

lemma loop_end_right: "naturalSort_loop lc xs [] = None"
  by (cases xs) simp_all






















subsection \<open>\<open>filterCards\<close>\<close>

lemma includes_str_sublist: "includes_str s t \<longleftrightarrow> sublist t s"
  by (induction s) (simp_all add: sublist_Cons_right)

lemma type_test:
  "list_ex (\<lambda>type. set_has T type) (cardTypes_of ty) \<longleftrightarrow> (\<exists>t \<in> set (card_types ty). t \<in> T)"
  by (cases ty) (simp_all add: list_ex_iff)

lemma text_mismatch_value:
  "text_mismatch lower needle c =
     Inr (\<not> (needle = [] \<or> sublist needle (lower (name c)) \<or> sublist needle (lower (card_id c)) \<or>
              (\<exists>tag \<in> set (card_tags (tags c)). sublist needle (lower tag))))"
  by (cases "tags c") (simp_all add: text_mismatch_def includes_str_sublist list_ex_iff)

lemma tags_mismatch_value:
  "tags_mismatch G c = Inr (\<not> (G = {} \<or> (\<exists>g \<in> set (card_tags (tags c)). g \<in> G)))"
  by (cases "tags c") (simp_all add: tags_mismatch_def list_ex_iff)

lemma callback_value:
  "filterCards_callback lower needle K T G c =
     Inr ((needle = [] \<or> sublist needle (lower (name c)) \<or> sublist needle (lower (card_id c)) \<or>
           (\<exists>tag \<in> set (card_tags (tags c)). sublist needle (lower tag))) \<and>
          (K = {} \<or> kind c \<in> K) \<and>
          (T = {} \<or> (\<exists>t \<in> set (card_types (type c)). t \<in> T)) \<and>
          (G = {} \<or> (\<exists>g \<in> set (card_tags (tags c)). g \<in> G)))"
  unfolding filterCards_callback_def text_mismatch_value tags_mismatch_value type_test
  by (simp split: bool.splits)

lemma filter_array_total: "(\<And>x. p x = Inr (q x)) \<Longrightarrow> filter_array p xs = Inr (filter q xs)"
  by (induction xs) simp_all

lemma filterCards_value:
  "filterCards lower cards crit =
     Inr (filter (\<lambda>c.
        (lower (crit_text crit) = [] \<or> sublist (lower (crit_text crit)) (lower (name c)) \<or>
         sublist (lower (crit_text crit)) (lower (card_id c)) \<or>
         (\<exists>tag \<in> set (card_tags (tags c)). sublist (lower (crit_text crit)) (lower tag))) \<and>
        (crit_kind crit = [] \<or> kind c \<in> set (crit_kind crit)) \<and>
        (crit_type crit = [] \<or> (\<exists>t \<in> set (card_types (type c)). t \<in> set (crit_type crit))) \<and>
        (crit_tags crit = [] \<or> (\<exists>g \<in> set (card_tags (tags c)). g \<in> set (crit_tags crit)))) cards)"
  unfolding filterCards_def Let_def
  by (rule filter_array_total [THEN trans]) (rule callback_value, simp)

lemma filterCards_matches:
  assumes "\<forall>s. toLowerCase s = [] \<longleftrightarrow> s = []"
  shows "filterCards toLowerCase cards crit = Inr (filter (\<lambda>c. matches toLowerCase c crit) cards)"
proof -
  have "(\<exists>g \<in> set gs. g \<in> set hs) \<longleftrightarrow> set gs \<inter> set hs \<noteq> {}" for gs hs :: "string list"
    by auto
  then show ?thesis
    unfolding filterCards_value matches_def ci_substring_def using assms by simp
qed

text \<open>C8: with a \<open>toLowerCase\<close> that keeps non-empty strings non-empty, \<open>filterCards\<close>
  returns the cards that match the criteria, in their order: the text is empty or a
  case-insensitive substring of the name, the id or a tag; the kinds are empty or hold
  the card's kind; the types are empty or hold one of the card's types; the tags are empty
  or meet the card's tags. So a card is in the result exactly when it is in the list and
  matches; empty criteria keep every card; the kinds \<open>{Song}\<close> alone keep the cards of kind
  \<open>Song\<close>.\<close>

theorem filterCards_contract:
  assumes "\<forall>s. toLowerCase s = [] \<longleftrightarrow> s = []"
  shows "filterCards toLowerCase cards crit = Inr (filter (\<lambda>c. matches toLowerCase c crit) cards) \<and>
    (\<forall>r c. filterCards toLowerCase cards crit = Inr r \<longrightarrow>
       (c \<in> set r \<longleftrightarrow> c \<in> set cards \<and> matches toLowerCase c crit)) \<and>
    filterCards toLowerCase cards \<lparr>crit_text = [], crit_kind = [], crit_type = [], crit_tags = []\<rparr>
      = Inr cards \<and>
    filterCards toLowerCase cards
        \<lparr>crit_text = [], crit_kind = [''Song''], crit_type = [], crit_tags = []\<rparr>
      = Inr (filter (\<lambda>c. kind c = ''Song'') cards)"
proof -
  note m = filterCards_matches [OF assms]
  have "filterCards toLowerCase cards \<lparr>crit_text = [], crit_kind = [], crit_type = [], crit_tags = []\<rparr>
      = Inr cards"
    unfolding m by (simp add: matches_def)
  moreover have "filterCards toLowerCase cards
        \<lparr>crit_text = [], crit_kind = [''Song''], crit_type = [], crit_tags = []\<rparr>
      = Inr (filter (\<lambda>c. kind c = ''Song'') cards)"
    unfolding m by (simp add: matches_def)
  ultimately show ?thesis using m [of cards crit] by simp
qed

lemma ascii_toLowerCase_Nil: "\<forall>s. ascii_toLowerCase s = [] \<longleftrightarrow> s = []"
  by (simp add: ascii_toLowerCase_def)

lemma ascii_lower_examples:
  "ascii_toLowerCase ''kA'' = ''ka''" "ascii_toLowerCase ''Kafu'' = ''kafu''"
  "ascii_toLowerCase ''AA-1'' = ''aa-1''" "ascii_toLowerCase ''Uta'' = ''uta''"
  "ascii_toLowerCase ''AA-2'' = ''aa-2''" "ascii_toLowerCase ''V.W.P'' = ''v.w.p''"
  by code_simp+

theorem filterCards_contract_witness:
  "(\<forall>s. ascii_toLowerCase s = [] \<longleftrightarrow> s = []) \<and>
   matches ascii_toLowerCase card_AA1 criteria_kafu \<and>
   \<not> matches ascii_toLowerCase card_AA2 criteria_kafu \<and>
   filterCards ascii_toLowerCase [card_AA1, card_AA2] criteria_kafu = Inr [card_AA1] \<and>
   filterCards ascii_toLowerCase [card_AA1, card_AA2]
       \<lparr>crit_text = [], crit_kind = [''Song''], crit_type = [], crit_tags = []\<rparr> = Inr [card_AA2]"
proof -
  have m1: "matches ascii_toLowerCase card_AA1 criteria_kafu"
    by (simp add: matches_def ci_substring_def criteria_kafu_def card_AA1_def
        ascii_lower_examples includes_str_sublist [symmetric])
  have m2: "\<not> matches ascii_toLowerCase card_AA2 criteria_kafu"
    by (simp add: matches_def ci_substring_def criteria_kafu_def card_AA2_def
        ascii_lower_examples includes_str_sublist [symmetric])
  have k: "kind card_AA1 \<noteq> ''Song''" "kind card_AA2 = ''Song''"
    by (simp_all add: card_AA1_def card_AA2_def)
  show ?thesis
    using filterCards_contract [OF ascii_toLowerCase_Nil, of "[card_AA1, card_AA2]" criteria_kafu]
      ascii_toLowerCase_Nil m1 m2 k
    by simp
qed

subsection \<open>\<open>filterCards\<close> on cards of JSON values\<close>

lemma lower_includes_Str:
  "lower_includes lower (Str s) needle = Inr (includes_str (lower s) needle)"
  by (simp add: lower_includes_def)

lemma array_some_lower:
  "array_some (\<lambda>tag. lower_includes lower tag needle) (map Str ts) =
     Inr (list_ex (\<lambda>tag. includes_str (lower tag) needle) ts)"
  by (induction ts) (simp_all add: lower_includes_Str)

lemma array_some_has:
  "array_some (\<lambda>tag. Inr (Set_has G tag)) vs = Inr (list_ex (\<lambda>tag. Set_has G tag) vs)"
  by (induction vs) simp_all

lemma list_ex_Str: "list_ex (\<lambda>v. Set_has G v) (map Str ts) = list_ex (\<lambda>t. t \<in> G) ts"
  by (induction ts) simp_all

lemma raw_text_mismatch_typed:
  "raw_text_mismatch lower needle (raw_of c) = text_mismatch lower needle c"
  by (cases "tags c")
    (simp_all add: raw_text_mismatch_def text_mismatch_def raw_of_def lower_includes_Str
      array_some_lower)

lemma raw_tags_mismatch_typed: "raw_tags_mismatch G (raw_of c) = tags_mismatch G c"
  by (cases "tags c")
    (simp_all add: raw_tags_mismatch_def tags_mismatch_def raw_of_def array_some_has list_ex_Str)

lemma raw_types_typed:
  "list_ex (\<lambda>v. Set_has T v) (raw_cardTypes (raw_type (raw_of c))) =
     list_ex (\<lambda>v. set_has T v) (cardTypes_of (type c))"
proof (cases "type c")
  case (TypeArray ts)
  have "list_ex (\<lambda>v. set_has T v) (map Some ts) = list_ex (\<lambda>t. t \<in> T) ts"
    by (induction ts) simp_all
  then show ?thesis using TypeArray by (simp add: raw_of_def list_ex_Str)
qed (simp_all add: raw_of_def)

lemma raw_callback_typed:
  "filterCards_raw_callback lower needle K T G (raw_of c) = filterCards_callback lower needle K T G c"
proof -
  have k: "Set_has K (raw_kind (raw_of c)) = (kind c \<in> K)" by (simp add: raw_of_def)
  show ?thesis
    unfolding filterCards_raw_callback_def filterCards_callback_def
      raw_text_mismatch_typed raw_tags_mismatch_typed raw_types_typed k ..
qed

lemma filter_array_map:
  "filter_array p (map f xs) =
     (case filter_array (\<lambda>x. p (f x)) xs of Inl e \<Rightarrow> Inl e | Inr r \<Rightarrow> Inr (map f r))"
  by (induction xs) (auto split: sum.splits)

text \<open>On cards of the data model the two embeddings of \<open>filterCards\<close> agree.\<close>

lemma filterCards_raw_typed:
  "filterCards_raw lower (map raw_of cards) crit =
     (case filterCards lower cards crit of Inl e \<Rightarrow> Inl e | Inr r \<Rightarrow> Inr (map raw_of r))"
  unfolding filterCards_raw_def filterCards_def Let_def filter_array_map raw_callback_typed ..

lemma filter_array_on:
  "(\<And>x. x \<in> set xs \<Longrightarrow> p x = Inr (q x)) \<Longrightarrow> filter_array p xs = Inr (filter q xs)"
  by (induction xs) simp_all

lemma filter_array_kept:
  "filter_array p xs = Inr r \<Longrightarrow> c \<in> set r \<Longrightarrow> p c = Inr True"
proof (induction xs arbitrary: r)
  case Nil
  then show ?case by simp
next
  case (Cons x xs)
  then show ?case by (auto split: sum.splits if_splits)
qed

lemma raw_callback_no_tags:
  assumes "raw_name c = Str n" "raw_id c = Str i" "\<not> isArray (raw_tags c)"
  shows "filterCards_raw_callback lower needle K T G c =
     Inr ((needle = [] \<or> sublist needle (lower n) \<or> sublist needle (lower i)) \<and>
          (K = {} \<or> Set_has K (raw_kind c)) \<and>
          (T = {} \<or> (\<exists>t \<in> set (raw_cardTypes (raw_type c)). Set_has T t)) \<and>
          G = {})"
  using assms
  by (auto simp: filterCards_raw_callback_def raw_text_mismatch_def raw_tags_mismatch_def
      lower_includes_def includes_str_sublist list_ex_iff split: bool.splits)

lemma raw_callback_tags_needed:
  assumes "\<not> isArray (raw_tags c)" "G \<noteq> {}"
  shows "filterCards_raw_callback lower needle K T G c \<noteq> Inr True"
  using assms
  by (auto simp: filterCards_raw_callback_def raw_tags_mismatch_def
      split: sum.splits bool.splits)

text \<open>C10, as amended: a card whose name and id are strings and whose \<open>tags\<close> field is no
  array is kept exactly when the text is empty or occurs in its name or id, its kind and
  type pass, and the criteria name no tag; a list of such cards never makes \<open>filterCards\<close>
  throw. Whenever \<open>filterCards\<close> returns, a card whose \<open>tags\<close> field is no array is not in
  the result if the criteria name a tag.\<close>

theorem filterCards_tags_not_array:
  "(raw_name c = Str n \<and> raw_id c = Str i \<and> \<not> isArray (raw_tags c) \<longrightarrow>
      filterCards_raw toLowerCase [c] crit =
        Inr (if (toLowerCase (crit_text crit) = [] \<or>
                 sublist (toLowerCase (crit_text crit)) (toLowerCase n) \<or>
                 sublist (toLowerCase (crit_text crit)) (toLowerCase i)) \<and>
                (crit_kind crit = [] \<or> Set_has (set (crit_kind crit)) (raw_kind c)) \<and>
                (crit_type crit = [] \<or>
                 (\<exists>t \<in> set (raw_cardTypes (raw_type c)). Set_has (set (crit_type crit)) t)) \<and>
                crit_tags crit = []
             then [c] else [])) \<and>
   ((\<forall>x \<in> set cards. (\<exists>n. raw_name x = Str n) \<and> (\<exists>i. raw_id x = Str i) \<and>
                       \<not> isArray (raw_tags x)) \<longrightarrow>
      (\<exists>r. filterCards_raw toLowerCase cards crit = Inr r)) \<and>
   (\<not> isArray (raw_tags c) \<and> crit_tags crit \<noteq> [] \<and>
    filterCards_raw toLowerCase cards crit = Inr r \<longrightarrow> c \<notin> set r)"
proof -
  let ?cb = "filterCards_raw_callback toLowerCase (toLowerCase (crit_text crit))
      (set (crit_kind crit)) (set (crit_type crit)) (set (crit_tags crit))"
  have one: "raw_name c = Str n \<and> raw_id c = Str i \<and> \<not> isArray (raw_tags c) \<longrightarrow>
      filterCards_raw toLowerCase [c] crit =
        Inr (if (toLowerCase (crit_text crit) = [] \<or>
                 sublist (toLowerCase (crit_text crit)) (toLowerCase n) \<or>
                 sublist (toLowerCase (crit_text crit)) (toLowerCase i)) \<and>
                (crit_kind crit = [] \<or> Set_has (set (crit_kind crit)) (raw_kind c)) \<and>
                (crit_type crit = [] \<or>
                 (\<exists>t \<in> set (raw_cardTypes (raw_type c)). Set_has (set (crit_type crit)) t)) \<and>
                crit_tags crit = []
             then [c] else [])"
  proof
    assume a: "raw_name c = Str n \<and> raw_id c = Str i \<and> \<not> isArray (raw_tags c)"
    then have "?cb c = Inr ((toLowerCase (crit_text crit) = [] \<or>
                 sublist (toLowerCase (crit_text crit)) (toLowerCase n) \<or>
                 sublist (toLowerCase (crit_text crit)) (toLowerCase i)) \<and>
                (set (crit_kind crit) = {} \<or> Set_has (set (crit_kind crit)) (raw_kind c)) \<and>
                (set (crit_type crit) = {} \<or>
                 (\<exists>t \<in> set (raw_cardTypes (raw_type c)). Set_has (set (crit_type crit)) t)) \<and>
                set (crit_tags crit) = {})"
      by (intro raw_callback_no_tags) simp_all
    then show "filterCards_raw toLowerCase [c] crit =
        Inr (if (toLowerCase (crit_text crit) = [] \<or>
                 sublist (toLowerCase (crit_text crit)) (toLowerCase n) \<or>
                 sublist (toLowerCase (crit_text crit)) (toLowerCase i)) \<and>
                (crit_kind crit = [] \<or> Set_has (set (crit_kind crit)) (raw_kind c)) \<and>
                (crit_type crit = [] \<or>
                 (\<exists>t \<in> set (raw_cardTypes (raw_type c)). Set_has (set (crit_type crit)) t)) \<and>
                crit_tags crit = []
             then [c] else [])"
      by (simp add: filterCards_raw_def Let_def)
  qed
  have total: "(\<forall>x \<in> set cards. (\<exists>n. raw_name x = Str n) \<and> (\<exists>i. raw_id x = Str i) \<and>
                       \<not> isArray (raw_tags x)) \<longrightarrow>
      (\<exists>r. filterCards_raw toLowerCase cards crit = Inr r)"
  proof
    assume a: "\<forall>x \<in> set cards. (\<exists>n. raw_name x = Str n) \<and> (\<exists>i. raw_id x = Str i) \<and>
                       \<not> isArray (raw_tags x)"
    have "\<exists>b. ?cb x = Inr b" if "x \<in> set cards" for x
    proof -
      from a that obtain n i where "raw_name x = Str n" "raw_id x = Str i" "\<not> isArray (raw_tags x)"
        by blast
      then show ?thesis using raw_callback_no_tags [of x n i] by blast
    qed
    then have "?cb x = Inr (?cb x = Inr True)" if "x \<in> set cards" for x
      using that by force
    then have "filter_array ?cb cards = Inr (filter (\<lambda>x. ?cb x = Inr True) cards)"
      by (rule filter_array_on)
    then show "\<exists>r. filterCards_raw toLowerCase cards crit = Inr r"
      by (simp add: filterCards_raw_def Let_def)
  qed
  have out: "\<not> isArray (raw_tags c) \<and> crit_tags crit \<noteq> [] \<and>
    filterCards_raw toLowerCase cards crit = Inr r \<longrightarrow> c \<notin> set r"
  proof (intro impI notI, elim conjE)
    assume a: "\<not> isArray (raw_tags c)" "crit_tags crit \<noteq> []"
      and f: "filterCards_raw toLowerCase cards crit = Inr r" and m: "c \<in> set r"
    from f have "filter_array ?cb cards = Inr r" by (simp add: filterCards_raw_def Let_def)
    from filter_array_kept [OF this m] have "?cb c = Inr True" .
    moreover have "?cb c \<noteq> Inr True" using a by (intro raw_callback_tags_needed) simp_all
    ultimately show False by contradiction
  qed
  show ?thesis using one total out by blast
qed

theorem filterCards_tags_not_array_witness:
  "raw_name raw_Q1_named = Str ''Quartz'' \<and> raw_id raw_Q1_named = Str ''Q-1'' \<and>
   \<not> isArray (raw_tags raw_Q1_named) \<and>
   filterCards_raw ascii_toLowerCase [raw_Q1_named]
      \<lparr>crit_text = ''q-1'', crit_kind = [''Song''], crit_type = [], crit_tags = []\<rparr>
     = Inr [raw_Q1_named] \<and>
   filterCards_raw ascii_toLowerCase [raw_Q1_named]
      \<lparr>crit_text = ''Qu'', crit_kind = [], crit_type = [], crit_tags = [''V.W.P'']\<rparr> = Inr [] \<and>
   filterCards_raw ascii_toLowerCase [raw_of card_AA1, raw_Q1_named]
      \<lparr>crit_text = [], crit_kind = [], crit_type = [], crit_tags = [''V.W.P'']\<rparr>
     = Inr [raw_of card_AA1] \<and>
   raw_Q1_named \<notin> set [raw_of card_AA1]"
proof -
  have f: "raw_name raw_Q1_named = Str ''Quartz''" "raw_id raw_Q1_named = Str ''Q-1''"
    "\<not> isArray (raw_tags raw_Q1_named)" "raw_kind raw_Q1_named = Str ''Song''"
    by (simp_all add: raw_Q1_named_def raw_Q1_def)
  have l: "ascii_toLowerCase ''q-1'' = ''q-1''" "ascii_toLowerCase ''Q-1'' = ''q-1''"
    "ascii_toLowerCase ''Qu'' = ''qu''" "ascii_toLowerCase ''Quartz'' = ''quartz''"
    "ascii_toLowerCase [] = []"
    by code_simp+
  have s: "sublist ''q-1'' ''q-1''" "sublist ''qu'' ''quartz''"
    by (simp_all add: includes_str_sublist [symmetric])
  have v: "filterCards_raw ascii_toLowerCase [raw_of card_AA1, raw_Q1_named]
      \<lparr>crit_text = [], crit_kind = [], crit_type = [], crit_tags = [''V.W.P'']\<rparr>
     = Inr [raw_of card_AA1]"
    by (simp add: filterCards_raw_def filterCards_raw_callback_def raw_text_mismatch_def
        raw_tags_mismatch_def raw_of_def card_AA1_def raw_Q1_named_def raw_Q1_def l)
  show ?thesis
    using f v
      filterCards_tags_not_array [where c = raw_Q1_named and toLowerCase = ascii_toLowerCase
        and n = "''Quartz''" and i = "''Q-1''" and cards = "[raw_of card_AA1, raw_Q1_named]"
        and r = "[raw_of card_AA1]"
        and crit = "\<lparr>crit_text = ''q-1'', crit_kind = [''Song''], crit_type = [], crit_tags = []\<rparr>"]
      filterCards_tags_not_array [where c = raw_Q1_named and toLowerCase = ascii_toLowerCase
        and n = "''Quartz''" and i = "''Q-1''" and cards = "[raw_of card_AA1, raw_Q1_named]"
        and r = "[raw_of card_AA1]"
        and crit = "\<lparr>crit_text = ''Qu'', crit_kind = [], crit_type = [], crit_tags = [''V.W.P'']\<rparr>"]
      filterCards_tags_not_array [where c = raw_Q1_named and toLowerCase = ascii_toLowerCase
        and n = "''Quartz''" and i = "''Q-1''" and cards = "[raw_of card_AA1, raw_Q1_named]"
        and r = "[raw_of card_AA1]"
        and crit = "\<lparr>crit_text = [], crit_kind = [], crit_type = [], crit_tags = [''V.W.P'']\<rparr>"]
    by (simp add: l s)
qed

text \<open>The card \<open>{ id: 'Q-1', kind: 'Song' }\<close> has no \<open>tags\<close> field; with the text \<open>q\<close>
  the call \<open>card.name.toLowerCase()\<close> throws.\<close>

theorem filterCards_missing_name_throws:
  "\<not> isArray (raw_tags raw_Q1) \<and>
   filterCards_raw ascii_toLowerCase [raw_Q1]
      \<lparr>crit_text = ''q'', crit_kind = [], crit_type = [], crit_tags = []\<rparr> = Inl TypeError"
proof -
  have l: "ascii_toLowerCase ''q'' = ''q''" by code_simp
  show ?thesis
    by (simp add: filterCards_raw_def filterCards_raw_callback_def raw_text_mismatch_def
        lower_includes_def raw_Q1_def l)
qed

subsection \<open>The deck code\<close>

lemma split_str_not_Nil: "split_str sep s \<noteq> []"
  by (induction s) (auto split: list.splits)

lemma join_split: "join_str sep (split_str sep s) = s"
proof (induction s)
  case Nil
  then show ?case by simp
next
  case (Cons c s)
  obtain p ps where sp: "split_str sep s = p # ps"
    using split_str_not_Nil [of sep s] by (cases "split_str sep s") auto
  with Cons have j: "join_str sep (p # ps) = s" by simp
  show ?case
  proof (cases "c = sep")
    case True
    then show ?thesis using sp j by simp
  next
    case False
    have "join_str sep ((c # p) # ps) = c # join_str sep (p # ps)" by (cases ps) simp_all
    then show ?thesis using False sp j by simp
  qed
qed

lemma split_no_sep: "p \<in> set (split_str sep s) \<Longrightarrow> sep \<notin> set p"
proof (induction s arbitrary: p)
  case Nil
  then show ?case by simp
next
  case (Cons c s)
  obtain q qs where sp: "split_str sep s = q # qs"
    using split_str_not_Nil [of sep s] by (cases "split_str sep s") auto
  show ?case
  proof (cases "c = sep")
    case True
    with Cons.prems have "p = [] \<or> p \<in> set (split_str sep s)" by simp
    then show ?thesis using Cons.IH by auto
  next
    case False
    with Cons.prems sp have "p = c # q \<or> p \<in> set qs" by simp
    moreover have "sep \<notin> set q" using Cons.IH [of q] sp by simp
    moreover have "p \<in> set qs \<Longrightarrow> sep \<notin> set p" using Cons.IH [of p] sp by simp
    ultimately show ?thesis using False by auto
  qed
qed

lemma split_append_sep:
  "sep \<notin> set x \<Longrightarrow> split_str sep (x @ sep # s) = x # split_str sep s"
  by (induction x) auto

lemma split_single: "sep \<notin> set x \<Longrightarrow> split_str sep x = [x]"
  by (induction x) auto

lemma split_join:
  "xs \<noteq> [] \<Longrightarrow> \<forall>x \<in> set xs. sep \<notin> set x \<Longrightarrow> split_str sep (join_str sep xs) = xs"
proof (induction xs rule: join_str.induct)
  case (1 sep)
  then show ?case by simp
next
  case (2 sep x)
  then show ?case by (simp add: split_single)
next
  case (3 sep x y ys)
  then show ?case by (simp add: split_append_sep)
qed

lemma Map_get_absent: "k \<notin> fst ` set m \<Longrightarrow> Map_get m k = None"
  by (induction m) auto

lemma Map_set_absent: "k \<notin> fst ` set m \<Longrightarrow> Map_set m k v = m @ [(k, v)]"
  by (induction m) auto

lemma Map_get_last: "k \<notin> fst ` set m \<Longrightarrow> Map_get (m @ [(k, v)]) k = Some v"
  by (induction m) auto

lemma Map_set_last: "k \<notin> fst ` set m \<Longrightarrow> Map_set (m @ [(k, v)]) k v' = m @ [(k, v')]"
  by (induction m) auto

lemma Map_get_set: "Map_get (Map_set m k v) k' = (if k' = k then Some v else Map_get m k')"
  by (induction m) auto

lemma Map_set_keys:
  "map fst (Map_set m k v) = (if k \<in> set (map fst m) then map fst m else map fst m @ [k])"
proof (induction m)
  case Nil
  then show ?case by simp
next
  case (Cons a m)
  obtain k' v' where a: "a = (k', v')" by (cases a)
  show ?case unfolding a using Cons by (cases "k' = k") simp_all
qed

lemma Map_get_member: "distinct (map fst m) \<Longrightarrow> (k, v) \<in> set m \<longleftrightarrow> Map_get m k = Some v"
proof (induction m)
  case Nil
  then show ?case by simp
next
  case (Cons a m)
  obtain k' v' where a: "a = (k', v')" by (cases a)
  from Cons.prems have d: "k' \<notin> fst ` set m" "distinct (map fst m)" unfolding a by simp_all
  show ?case
  proof (cases "k' = k")
    case True
    then have "(k, v) \<notin> set m" using d(1) by (auto simp: rev_image_eqI)
    then show ?thesis unfolding a using True by auto
  next
    case False
    then show ?thesis unfolding a using Cons.IH [OF d(2)] by auto
  qed
qed

lemma count_id_get:
  "Map_get (count_id i m) k =
     (if k = i then Some ((case Map_get m i of None \<Rightarrow> 0 | Some n \<Rightarrow> n) + 1) else Map_get m k)"
  by (simp add: count_id_def Map_get_set split: option.splits)

lemma count_id_keys:
  "map fst (count_id i m) = (if i \<in> set (map fst m) then map fst m else map fst m @ [i])"
  by (simp add: count_id_def Map_set_keys)

lemma fold_count_id_keys: "set (map fst (fold count_id ids m)) = set (map fst m) \<union> set ids"
proof (induction ids arbitrary: m)
  case Nil
  then show ?case by simp
next
  case (Cons i ids)
  have "set (map fst (count_id i m)) = insert i (set (map fst m))"
    unfolding count_id_keys by auto
  then show ?case unfolding fold_simps Cons.IH by auto
qed

lemma fold_count_id_distinct:
  "distinct (map fst m) \<Longrightarrow> distinct (map fst (fold count_id ids m))"
proof (induction ids arbitrary: m)
  case Nil
  then show ?case by simp
next
  case (Cons i ids)
  have "distinct (map fst (count_id i m))"
    unfolding count_id_keys using Cons.prems by simp
  then show ?case unfolding fold_simps by (rule Cons.IH)
qed

lemma fold_count_id_get:
  "Map_get (fold count_id ids m) k =
     (if k \<in> set ids
      then Some ((case Map_get m k of None \<Rightarrow> 0 | Some n \<Rightarrow> n) + int (count_list ids k))
      else Map_get m k)"
  by (induction ids arbitrary: m) (auto simp: count_id_get split: option.splits)

lemma fold_count_id_replicate:
  "k \<notin> fst ` set m \<Longrightarrow>
   fold count_id (replicate n k) (m @ [(k, v)]) = m @ [(k, v + int n)]"
proof (induction n arbitrary: v)
  case 0
  then show ?case by simp
next
  case (Suc n)
  have "count_id k (m @ [(k, v)]) = m @ [(k, v + 1)]"
    using Suc.prems by (simp add: count_id_def Map_get_last Map_set_last)
  then show ?case using Suc by simp
qed

lemma fold_count_id_new:
  assumes "k \<notin> fst ` set m" "0 < n"
  shows "fold count_id (replicate n k) m = m @ [(k, int n)]"
proof -
  obtain n' where n: "n = Suc n'" using assms(2) by (cases n) auto
  have "count_id k m = m @ [(k, 1)]"
    using assms(1) by (simp add: count_id_def Map_get_absent Map_set_absent)
  then show ?thesis unfolding n using fold_count_id_replicate [OF assms(1), of n' 1] by simp
qed

lemma decode_pairs_aux:
  "map id_count (concat (map (\<lambda>(i, n).
       case find (\<lambda>c. card_id c = i) cat of
         None \<Rightarrow> []
       | Some c \<Rightarrow> [\<lparr>item_card = c, item_count = n\<rparr>]) m))
   = filter (\<lambda>(i, n). i \<in> card_id ` set cat) m"
proof (induction m)
  case Nil
  then show ?case by simp
next
  case (Cons a m)
  obtain i n where a: "a = (i, n)" by (cases a)
  show ?case
  proof (cases "find (\<lambda>c. card_id c = i) cat")
    case None
    then have "i \<notin> card_id ` set cat" by (auto simp: find_None_iff)
    then show ?thesis unfolding a using None Cons by simp
  next
    case (Some c)
    then have "card_id c = i" "c \<in> set cat" by (auto simp: find_Some_iff)
    then have "i \<in> card_id ` set cat" by auto
    then show ?thesis unfolding a using Some Cons \<open>card_id c = i\<close> by (simp add: id_count_def)
  qed
qed

lemma decode_pairs:
  "map id_count (decodeDeckCode cat code) =
     filter (\<lambda>(i, n). i \<in> card_id ` set cat) (fold count_id (split_str CHR ''/'' code) [])"
  unfolding decodeDeckCode_def Let_def by (rule decode_pairs_aux)

lemma decode_cards:
  assumes "e \<in> set (decodeDeckCode cat code)"
  shows "item_card e \<in> set cat"
proof -
  have "find P cat = Some c \<Longrightarrow> c \<in> set cat" for P and c :: card
    by (auto simp: find_Some_iff)
  then show ?thesis using assms unfolding decodeDeckCode_def Let_def
    by (auto split: option.splits)
qed

lemma decode_ids:
  "map (\<lambda>e. card_id (item_card e)) (decodeDeckCode cat code) =
     filter (\<lambda>i. i \<in> card_id ` set cat) (map fst (fold count_id (split_str CHR ''/'' code) []))"
proof -
  have "map (\<lambda>e. card_id (item_card e)) (decodeDeckCode cat code)
        = map fst (map id_count (decodeDeckCode cat code))"
    by (simp add: id_count_def comp_def)
  also have "\<dots> = filter (\<lambda>i. i \<in> card_id ` set cat)
      (map fst (fold count_id (split_str CHR ''/'' code) []))"
    unfolding decode_pairs by (simp add: filter_map comp_def case_prod_unfold)
  finally show ?thesis .
qed

lemma decode_distinct: "distinct (map (\<lambda>e. card_id (item_card e)) (decodeDeckCode cat code))"
  unfolding decode_ids using fold_count_id_distinct [of "[]"] by simp

lemma decode_id_set:
  "set (map (\<lambda>e. card_id (item_card e)) (decodeDeckCode cat code)) =
     set (split_str CHR ''/'' code) \<inter> card_id ` set cat"
  unfolding decode_ids using fold_count_id_keys [of "split_str CHR ''/'' code" "[]"] by auto

lemma decode_count:
  assumes "e \<in> set (decodeDeckCode cat code)"
  shows "item_count e = int (count_list (split_str CHR ''/'' code) (card_id (item_card e)))"
proof -
  let ?ids = "split_str CHR ''/'' code"
  let ?cc = "fold count_id ?ids []"
  have "id_count e \<in> set (map id_count (decodeDeckCode cat code))" using assms by simp
  then have mem: "(card_id (item_card e), item_count e) \<in> set ?cc"
    unfolding decode_pairs by (simp add: id_count_def)
  have d: "distinct (map fst ?cc)" using fold_count_id_distinct [of "[]"] by simp
  from mem have "card_id (item_card e) \<in> set (map fst ?cc)" by (metis fst_conv image_eqI set_map)
  then have inids: "card_id (item_card e) \<in> set ?ids" unfolding fold_count_id_keys by simp
  from mem have "Map_get ?cc (card_id (item_card e)) = Some (item_count e)"
    using Map_get_member [OF d] by simp
  then show ?thesis unfolding fold_count_id_get using inids by simp
qed

lemma decode_examples:
  "map id_count (decodeDeckCode cat ''X-1/X-1/Y-2'') =
     filter (\<lambda>(i, n). i \<in> card_id ` set cat) [(''X-1'', 2), (''Y-2'', 1)]"
  "map id_count (decodeDeckCode cat ''Z-9'') =
     filter (\<lambda>(i, n). i \<in> card_id ` set cat) [(''Z-9'', 1)]"
  "map id_count (decodeDeckCode cat ''X-1/X-1/X-1/X-1/X-1'') =
     filter (\<lambda>(i, n). i \<in> card_id ` set cat) [(''X-1'', 5)]"
  unfolding decode_pairs by (simp_all add: count_id_def)

lemma decode_unrecognized:
  assumes "\<forall>i \<in> set (split_str CHR ''/'' code). i \<notin> card_id ` set cat"
  shows "decodeDeckCode cat code = []"
proof -
  have "set (map (\<lambda>e. card_id (item_card e)) (decodeDeckCode cat code)) = {}"
    unfolding decode_id_set using assms by auto
  then show ?thesis by simp
qed

lemma flatMap_fill:
  "\<forall>e \<in> set deck. 0 \<le> item_count e \<and> item_count e < 2 ^ 32 \<Longrightarrow>
   flatMap (\<lambda>item. Array_fill (item_count item) (card_id (item_card item))) deck =
     Inr (concat (map (\<lambda>e. replicate (nat (item_count e)) (card_id (item_card e))) deck))"
  by (induction deck) (simp_all add: Array_fill_def)

lemma encode_value:
  "\<forall>e \<in> set deck. 0 \<le> item_count e \<and> item_count e < 2 ^ 32 \<Longrightarrow>
   encodeDeckCode deck =
     Inr (join_str CHR ''/''
            (concat (map (\<lambda>e. replicate (nat (item_count e)) (card_id (item_card e))) deck)))"
  by (simp add: encodeDeckCode_def flatMap_fill)

lemma fold_count_id_deck:
  assumes "distinct (map (\<lambda>e. card_id (item_card e)) deck)"
    and "\<forall>e \<in> set deck. 1 \<le> item_count e"
    and "\<forall>e \<in> set deck. card_id (item_card e) \<notin> fst ` set m"
  shows "fold count_id
           (concat (map (\<lambda>e. replicate (nat (item_count e)) (card_id (item_card e))) deck)) m
         = m @ map id_count deck"
  using assms
proof (induction deck arbitrary: m)
  case Nil
  then show ?case by simp
next
  case (Cons e deck)
  let ?k = "card_id (item_card e)"
  have k: "?k \<notin> fst ` set m" using Cons.prems(3) by simp
  have n: "0 < nat (item_count e)" using Cons.prems(2) by simp
  have first: "fold count_id (replicate (nat (item_count e)) ?k) m = m @ [(?k, item_count e)]"
    using fold_count_id_new [OF k n] Cons.prems(2) by simp
  have fresh: "\<forall>x \<in> set deck. card_id (item_card x) \<notin> fst ` set (m @ [(?k, item_count e)])"
  proof
    fix x assume x: "x \<in> set deck"
    then have "card_id (item_card x) \<in> (\<lambda>e. card_id (item_card e)) ` set deck" by (rule imageI)
    with Cons.prems(1) have "card_id (item_card x) \<noteq> ?k" by auto
    moreover have "card_id (item_card x) \<notin> fst ` set m" using Cons.prems(3) x by simp
    ultimately show "card_id (item_card x) \<notin> fst ` set (m @ [(?k, item_count e)])" by auto
  qed
  have "fold count_id
          (concat (map (\<lambda>e. replicate (nat (item_count e)) (card_id (item_card e))) deck))
          (m @ [(?k, item_count e)])
        = (m @ [(?k, item_count e)]) @ map id_count deck"
    using Cons.prems(1,2) fresh by (intro Cons.IH) simp_all
  then show ?case using first by (simp add: id_count_def)
qed

lemma decode_encode_pairs:
  assumes inv: "deck_inv deck"
    and cat: "\<forall>e \<in> set deck. card_id (item_card e) \<in> card_id ` set cat \<and>
                CHR ''/'' \<notin> set (card_id (item_card e))"
    and ne: "deck = [] \<longrightarrow> [] \<notin> card_id ` set cat"
  shows "\<exists>code. encodeDeckCode deck = Inr code \<and>
           map id_count (decodeDeckCode cat code) = map id_count deck"
proof -
  let ?ids = "concat (map (\<lambda>e. replicate (nat (item_count e)) (card_id (item_card e))) deck)"
  let ?code = "join_str CHR ''/'' ?ids"
  from inv have counts: "\<forall>e \<in> set deck. 1 \<le> item_count e \<and> item_count e \<le> 4"
    and dist: "distinct (map (\<lambda>e. card_id (item_card e)) deck)"
    by (simp_all add: deck_inv_def)
  have enc: "encodeDeckCode deck = Inr ?code"
    using counts by (intro encode_value) auto
  have "map id_count (decodeDeckCode cat ?code) = map id_count deck"
  proof (cases deck)
    case Nil
    have "fold count_id (split_str CHR ''/'' []) [] = [([], 1)]"
      by (simp add: count_id_def)
    then show ?thesis unfolding decode_pairs using Nil ne by simp
  next
    case (Cons e es)
    have "0 < nat (item_count e)" using counts Cons by simp
    then have "replicate (nat (item_count e)) (card_id (item_card e)) \<noteq> []" by simp
    then have nonempty: "?ids \<noteq> []" using Cons by simp
    have nosep: "\<forall>x \<in> set ?ids. CHR ''/'' \<notin> set x" using cat by auto
    have sp: "split_str CHR ''/'' ?code = ?ids" using nonempty nosep by (rule split_join)
    have "fold count_id ?ids [] = [] @ map id_count deck"
      using dist counts by (intro fold_count_id_deck) auto
    then have cc: "fold count_id ?ids [] = map id_count deck" by simp
    have "filter (\<lambda>(i, n). i \<in> card_id ` set cat) (map id_count deck) = map id_count deck"
      using cat by (auto simp: filter_id_conv id_count_def)
    then show ?thesis unfolding decode_pairs sp cc .
  qed
  with enc show ?thesis by blast
qed

text \<open>C2, as amended: for a deck that satisfies the invariants (one entry for each id,
  counts between 1 and 4, total at most 60), built from cards of the catalog whose ids hold
  no \<open>/\<close>, and, when the deck is empty, a catalog without a card of empty id,
  \<open>encodeDeckCode\<close> returns a code, and decoding it gives the pairs of id and count of the
  deck: the same multiset, and in the same order.\<close>

theorem decode_encode_roundtrip:
  assumes "deck_inv deck"
    and "\<forall>e \<in> set deck. card_id (item_card e) \<in> card_id ` set cat \<and>
           CHR ''/'' \<notin> set (card_id (item_card e))"
    and "deck = [] \<longrightarrow> [] \<notin> card_id ` set cat"
  shows "\<exists>code. encodeDeckCode deck = Inr code \<and>
           mset (map id_count (decodeDeckCode cat code)) = mset (map id_count deck) \<and>
           map id_count (decodeDeckCode cat code) = map id_count deck"
proof -
  from decode_encode_pairs [OF assms] obtain code where
    c: "encodeDeckCode deck = Inr code"
    and m: "map id_count (decodeDeckCode cat code) = map id_count deck"
    by blast
  from m have "mset (map id_count (decodeDeckCode cat code)) = mset (map id_count deck)"
    by (rule arg_cong)
  with c m show ?thesis by blast
qed

theorem decode_encode_roundtrip_witness:
  "deck_inv deck_X1_Y2 \<and>
   list_all (\<lambda>e. card_id (item_card e) \<in> card_id ` set [card_X1, card_Y2, card_empty_id] \<and>
               CHR ''/'' \<notin> set (card_id (item_card e))) deck_X1_Y2 \<and>
   deck_X1_Y2 \<noteq> [] \<and>
   encodeDeckCode deck_X1_Y2 = Inr ''X-1/X-1/Y-2'' \<and>
   mset (map id_count (decodeDeckCode [card_X1, card_Y2, card_empty_id] ''X-1/X-1/Y-2''))
     = mset (map id_count deck_X1_Y2) \<and>
   deck_inv [] \<and> [] \<notin> card_id ` set [card_X1, card_Y2] \<and>
   encodeDeckCode [] = Inr [] \<and>
   map id_count (decodeDeckCode [card_X1, card_Y2] []) = []"
proof -
  have h1: "deck_inv deck_X1_Y2"
    by (simp add: deck_inv_def deck_X1_Y2_def totalDeckCards_def card_X1_def card_Y2_def)
  have h2: "\<forall>e \<in> set deck_X1_Y2.
      card_id (item_card e) \<in> card_id ` set [card_X1, card_Y2, card_empty_id] \<and>
      CHR ''/'' \<notin> set (card_id (item_card e))"
    by (simp add: deck_X1_Y2_def card_X1_def card_Y2_def)
  have h3: "deck_X1_Y2 \<noteq> []" by (simp add: deck_X1_Y2_def)
  then have h3': "deck_X1_Y2 = [] \<longrightarrow> [] \<notin> card_id ` set [card_X1, card_Y2, card_empty_id]"
    by simp
  have e: "encodeDeckCode deck_X1_Y2 = Inr ''X-1/X-1/Y-2''"
    by (simp add: encodeDeckCode_def deck_X1_Y2_def Array_fill_def card_X1_def card_Y2_def
        numeral_2_eq_2)
  from decode_encode_roundtrip [OF h1 h2 h3'] e
  have r1: "mset (map id_count (decodeDeckCode [card_X1, card_Y2, card_empty_id] ''X-1/X-1/Y-2''))
     = mset (map id_count deck_X1_Y2)"
    by auto
  have l: "list_all (\<lambda>e. card_id (item_card e) \<in> card_id ` set [card_X1, card_Y2, card_empty_id] \<and>
               CHR ''/'' \<notin> set (card_id (item_card e))) deck_X1_Y2"
    using h2 by (simp only: list_all_iff)
  have g1: "deck_inv []" by (rule deck_inv_empty)
  have g2: "\<forall>e \<in> set ([] :: entry list). card_id (item_card e) \<in> card_id ` set [card_X1, card_Y2] \<and>
           CHR ''/'' \<notin> set (card_id (item_card e))"
    by simp
  have g3: "[] \<notin> card_id ` set [card_X1, card_Y2]"
    by (simp add: card_X1_def card_Y2_def)
  have e0: "encodeDeckCode [] = Inr []" by (simp add: encodeDeckCode_def)
  from decode_encode_roundtrip [OF g1 g2] g3 e0
  have r2: "map id_count (decodeDeckCode [card_X1, card_Y2] []) = []"
    by auto
  from h1 l h3 e r1 g1 g3 e0 r2 show ?thesis by blast
qed

text \<open>The empty deck has the empty code, which splits into one empty piece: on a catalog
  with a card of empty id it decodes to one copy of that card.\<close>

theorem decode_encode_empty_deck:
  "deck_inv [] \<and> totalDeckCards [] = 0 \<and> encodeDeckCode [] = Inr [] \<and>
   map id_count (decodeDeckCode [card_empty_id] []) = [([], 1)] \<and>
   mset (map id_count (decodeDeckCode [card_empty_id] [])) \<noteq> mset (map id_count [])"
proof -
  have d: "map id_count (decodeDeckCode [card_empty_id] []) = [([], 1)]"
    by (simp add: decodeDeckCode_def count_id_def card_empty_id_def id_count_def)
  have "mset (map id_count (decodeDeckCode [card_empty_id] [])) \<noteq> mset (map id_count [])"
    unfolding d by simp
  with d show ?thesis
    by (simp add: deck_inv_empty totalDeckCards_def encodeDeckCode_def)
qed

text \<open>C4: \<open>decodeDeckCode\<close> reads the pieces of the code between the \<open>/\<close>; it returns one
  entry for each id that is a piece and the id of a catalog card, and no other entry; the
  card of an entry is a catalog card and its count is the number of pieces equal to its id,
  whatever that number is. So \<open>X-1/X-1/Y-2\<close> decodes to \<open>X-1\<close> twice and \<open>Y-2\<close> once when
  the catalog has both, \<open>Z-9\<close> decodes to no entry when the catalog lacks it, and five
  \<open>X-1\<close> decode to a count of 5.\<close>

theorem decodeDeckCode_counts:
  "join_str CHR ''/'' (split_str CHR ''/'' code) = code \<and>
   (\<forall>p \<in> set (split_str CHR ''/'' code). CHR ''/'' \<notin> set p) \<and>
   distinct (map (\<lambda>e. card_id (item_card e)) (decodeDeckCode cat code)) \<and>
   set (map (\<lambda>e. card_id (item_card e)) (decodeDeckCode cat code)) =
     set (split_str CHR ''/'' code) \<inter> card_id ` set cat \<and>
   (\<forall>e \<in> set (decodeDeckCode cat code).
      item_card e \<in> set cat \<and>
      item_count e = int (count_list (split_str CHR ''/'' code) (card_id (item_card e)))) \<and>
   (''X-1'' \<in> card_id ` set cat \<and> ''Y-2'' \<in> card_id ` set cat \<longrightarrow>
      map id_count (decodeDeckCode cat ''X-1/X-1/Y-2'') = [(''X-1'', 2), (''Y-2'', 1)]) \<and>
   (''Z-9'' \<notin> card_id ` set cat \<longrightarrow> decodeDeckCode cat ''Z-9'' = []) \<and>
   (''X-1'' \<in> card_id ` set cat \<longrightarrow>
      map id_count (decodeDeckCode cat ''X-1/X-1/X-1/X-1/X-1'') = [(''X-1'', 5)])"
proof -
  have pieces: "\<forall>p \<in> set (split_str CHR ''/'' code). CHR ''/'' \<notin> set p"
    using split_no_sep by blast
  have entries: "\<forall>e \<in> set (decodeDeckCode cat code).
      item_card e \<in> set cat \<and>
      item_count e = int (count_list (split_str CHR ''/'' code) (card_id (item_card e)))"
    using decode_cards decode_count by blast
  have z: "''Z-9'' \<notin> card_id ` set cat \<longrightarrow> decodeDeckCode cat ''Z-9'' = []"
  proof
    assume "''Z-9'' \<notin> card_id ` set cat"
    then have "map id_count (decodeDeckCode cat ''Z-9'') = []"
      unfolding decode_examples by simp
    then show "decodeDeckCode cat ''Z-9'' = []" by simp
  qed
  show ?thesis
    using join_split [of "CHR ''/''" code] pieces decode_distinct [of cat code]
      decode_id_set [of cat code] entries z
    by (simp add: decode_examples)
qed

theorem decodeDeckCode_counts_witness:
  "''X-1'' \<in> card_id ` set [card_X1, card_Y2] \<and> ''Y-2'' \<in> card_id ` set [card_X1, card_Y2] \<and>
   ''Z-9'' \<notin> card_id ` set [card_X1, card_Y2] \<and>
   map id_count (decodeDeckCode [card_X1, card_Y2] ''X-1/X-1/Y-2'') = [(''X-1'', 2), (''Y-2'', 1)] \<and>
   decodeDeckCode [card_X1, card_Y2] ''Z-9'' = [] \<and>
   map id_count (decodeDeckCode [card_X1, card_Y2] ''X-1/X-1/X-1/X-1/X-1'') = [(''X-1'', 5)] \<and>
   list_all (\<lambda>e. item_card e \<in> set [card_X1, card_Y2])
     (decodeDeckCode [card_X1, card_Y2] ''X-1/X-1/Y-2'')"
proof -
  have ids: "card_id ` set [card_X1, card_Y2] = {''X-1'', ''Y-2''}"
    by (simp add: card_X1_def card_Y2_def)
  show ?thesis
    using decodeDeckCode_counts [of "''X-1/X-1/Y-2''" "[card_X1, card_Y2]"]
    unfolding ids list_all_iff by simp
qed

text \<open>C5: when the code to import decodes to no entry, \<open>importDeckFromCode\<close> shows the
  alert that no valid card was found and leaves the state as it is; this is so when no
  piece of the code is the id of a catalog card, and for the empty code when no catalog card
  has the empty id. When the code decodes to an entry or more, the decoded entries become
  the deck (and the input field and the dialog are reset).\<close>

theorem importDeckFromCode_cases:
  "(decodeDeckCode cat (importDeckCode s) = [] \<longrightarrow>
      importDeckFromCode cat s = (Some NoValidCards, s)) \<and>
   ((\<forall>i \<in> set (split_str CHR ''/'' (importDeckCode s)). i \<notin> card_id ` set cat) \<longrightarrow>
      importDeckFromCode cat s = (Some NoValidCards, s)) \<and>
   (importDeckCode s = [] \<and> [] \<notin> card_id ` set cat \<longrightarrow>
      importDeckFromCode cat s = (Some NoValidCards, s)) \<and>
   (decodeDeckCode cat (importDeckCode s) \<noteq> [] \<longrightarrow>
      importDeckFromCode cat s =
        (None, s\<lparr>deckCards := decodeDeckCode cat (importDeckCode s), importDeckCode := [],
                  showDeckCodeModal := False\<rparr>) \<and>
      deckCards (snd (importDeckFromCode cat s)) = decodeDeckCode cat (importDeckCode s))"
proof -
  have a: "decodeDeckCode cat (importDeckCode s) = [] \<Longrightarrow>
      importDeckFromCode cat s = (Some NoValidCards, s)"
    by (simp add: importDeckFromCode_def)
  have b: "\<forall>i \<in> set (split_str CHR ''/'' (importDeckCode s)). i \<notin> card_id ` set cat \<Longrightarrow>
      importDeckFromCode cat s = (Some NoValidCards, s)"
    using a decode_unrecognized [of "importDeckCode s" cat] by simp
  have c: "importDeckCode s = [] \<and> [] \<notin> card_id ` set cat \<Longrightarrow>
      importDeckFromCode cat s = (Some NoValidCards, s)"
    using b by simp
  have d: "decodeDeckCode cat (importDeckCode s) \<noteq> [] \<Longrightarrow>
      importDeckFromCode cat s =
        (None, s\<lparr>deckCards := decodeDeckCode cat (importDeckCode s), importDeckCode := [],
                  showDeckCodeModal := False\<rparr>)"
    by (simp add: importDeckFromCode_def Let_def)
  show ?thesis using a b c d by auto
qed

theorem importDeckFromCode_cases_witness:
  "decodeDeckCode [card_X1, card_Y2] ''Z-9'' = [] \<and>
   importDeckFromCode [card_X1, card_Y2] ((state0 deck_X1_Y2)\<lparr>importDeckCode := ''Z-9''\<rparr>) =
     (Some NoValidCards, (state0 deck_X1_Y2)\<lparr>importDeckCode := ''Z-9''\<rparr>) \<and>
   importDeckFromCode [card_X1, card_Y2] (state0 deck_X1_Y2) =
     (Some NoValidCards, state0 deck_X1_Y2) \<and>
   decodeDeckCode [card_X1, card_Y2] ''Y-2/X-1'' =
     [\<lparr>item_card = card_Y2, item_count = 1\<rparr>, \<lparr>item_card = card_X1, item_count = 1\<rparr>] \<and>
   importDeckFromCode [card_X1, card_Y2] ((state0 deck_X1_Y2)\<lparr>importDeckCode := ''Y-2/X-1''\<rparr>) =
     (None, state0 [\<lparr>item_card = card_Y2, item_count = 1\<rparr>, \<lparr>item_card = card_X1, item_count = 1\<rparr>])"
proof -
  have z: "decodeDeckCode [card_X1, card_Y2] ''Z-9'' = []"
    by (simp add: decodeDeckCode_def count_id_def card_X1_def card_Y2_def)
  have e: "[] \<notin> card_id ` set [card_X1, card_Y2]"
    by (simp add: card_X1_def card_Y2_def)
  have y: "decodeDeckCode [card_X1, card_Y2] ''Y-2/X-1'' =
     [\<lparr>item_card = card_Y2, item_count = 1\<rparr>, \<lparr>item_card = card_X1, item_count = 1\<rparr>]"
    by (simp add: decodeDeckCode_def count_id_def card_X1_def card_Y2_def)
  show ?thesis
    using z e y
      importDeckFromCode_cases [of "[card_X1, card_Y2]" "(state0 deck_X1_Y2)\<lparr>importDeckCode := ''Z-9''\<rparr>"]
      importDeckFromCode_cases [of "[card_X1, card_Y2]" "state0 deck_X1_Y2"]
      importDeckFromCode_cases [of "[card_X1, card_Y2]" "(state0 deck_X1_Y2)\<lparr>importDeckCode := ''Y-2/X-1''\<rparr>"]
    by (simp add: state0_def)
qed

end
